theory Spec2Isabelle
  imports Main
begin

section \<open>Data model of the XPermutas ledger\<close>

text \<open>
  The ledger lives in the SQL migration scripts (\<^verbatim>\<open>supabase/migrations\<close>, and the
  scripts \<^verbatim>\<open>unnamed/part_000\<close>, \<^verbatim>\<open>part_002\<close> and \<^verbatim>\<open>part_004\<close>). Each script rebuilds
  the schema, so the repository holds several versions of the settlement trigger, of
  the code generator and of the \<^verbatim>\<open>transactions\<close> table. Every version a property
  below speaks about is a definition of its own, named after the SQL function and the
  script it comes from:
  \<^item> \<open>initial\<close>: \<^verbatim>\<open>20250101000000_initial_schema.sql\<close>;
  \<^item> \<open>reset\<close>: the consolidated reset script, lines 94-396 of
    \<^verbatim>\<open>20250101000007_referral_system_and_security_fix.sql\<close>;
  \<^item> \<open>before\<close>: the version 2.0 script, lines 397-694 of the same file, whose trigger
    runs \<^verbatim>\<open>BEFORE INSERT OR UPDATE\<close>;
  \<^item> the platform schema script, lines 695-1084 of the same file
    (\<^verbatim>\<open>process_transaction_amortization\<close>);
  \<^item> \<open>corrected\<close>: \<^verbatim>\<open>20250720113429_initial_schema.sql\<close> (\<^verbatim>\<open>handle_debt_repayment\<close>);
  \<^item> \<open>final\<close>: the final reset script, \<^verbatim>\<open>unnamed/part_000\<close> lines 38-290
    (\<^verbatim>\<open>amortize_loan_on_sale\<close>);
  \<^item> \<open>consolidated\<close>: the consolidated migration script, \<^verbatim>\<open>unnamed/part_004\<close> lines
    1-243;
  \<^item> \<open>full\<close>: the full reset script, \<^verbatim>\<open>unnamed/part_002\<close>.

  Money columns are \<^verbatim>\<open>NUMERIC(p, 2)\<close>: a value is kept as its number of hundredths
  (\<^verbatim>\<open>40.00\<close> is \<open>4000\<close>), so sums, differences, \<^verbatim>\<open>LEAST\<close> and \<^verbatim>\<open>GREATEST\<close> of
  column values are exact integer operations. A column of precision \<open>p\<close> holds the
  values of absolute value below \<open>10 ^ p\<close> hundredths; storing another value raises
  \<^verbatim>\<open>numeric_field_overflow\<close> and aborts the statement. Variables declared
  \<^verbatim>\<open>NUMERIC\<close> inside a function have no such bound.
\<close>

type_synonym uuid = nat
type_synonym timestamptz = nat

datatype transaction_status = Pending | Completed | Cancelled

datatype tg_op = TG_INSERT | TG_UPDATE

datatype db_error =
    numeric_field_overflow | not_null_violation | check_violation
  | unique_violation | foreign_key_violation

text \<open>The columns of \<^verbatim>\<open>public.users\<close> that the functions below read or write.\<close>

record users_row =
  balance_xs :: int
  balance_bonus :: int
  debt_xs :: int
  referred_by :: "uuid option"
  referral_bonus_paid :: bool
  updated_at :: timestamptz

text \<open>The columns of \<^verbatim>\<open>public.transactions\<close> that the triggers read or write.\<close>

record transactions_row =
  buyer_id :: uuid
  seller_id :: uuid
  amount :: int
  status :: transaction_status
  completed_at :: "timestamptz option"

type_synonym users_table = "uuid \<rightharpoonup> users_row"

text \<open>
  \<^verbatim>\<open>public.system_settings\<close> maps a key to a JSONB value; the values the ledger reads
  are objects of numbers, kept as a map from field name to hundredths.
\<close>

record database =
  public_users :: users_table
  public_transactions :: "uuid \<rightharpoonup> transactions_row"
  public_system_settings :: "string \<rightharpoonup> (string \<rightharpoonup> int)"

text \<open>A failed statement aborts the function that issued it: the error is passed on.\<close>

definition and_then :: "db_error + 'a \<Rightarrow> ('a \<Rightarrow> db_error + 'b) \<Rightarrow> db_error + 'b" where
  "and_then m f = (case m of Inl e \<Rightarrow> Inl e | Inr x \<Rightarrow> f x)"

definition numeric_fits :: "nat \<Rightarrow> int \<Rightarrow> bool" where
  "numeric_fits p v \<longleftrightarrow> \<bar>v\<bar> < 10 ^ p"

definition users_row_fits :: "nat \<Rightarrow> users_row \<Rightarrow> bool" where
  "users_row_fits p r \<longleftrightarrow>
     numeric_fits p (balance_xs r) \<and> numeric_fits p (balance_bonus r) \<and> numeric_fits p (debt_xs r)"

text \<open>
  \<^verbatim>\<open>UPDATE public.users SET ... WHERE id = uid\<close> on a table whose money columns have
  precision \<open>p\<close>: no row with that id, nothing happens; otherwise the row is replaced
  by \<open>set_cols\<close> of it, unless a value no longer fits its column. (The values a
  stored row holds fit, so checking the whole new row is checking what was assigned.)
\<close>

definition update_users ::
  "nat \<Rightarrow> users_table \<Rightarrow> uuid \<Rightarrow> (users_row \<Rightarrow> users_row) \<Rightarrow> db_error + users_table" where
  "update_users p users uid set_cols =
     (case users uid of
        None \<Rightarrow> Inr users
      | Some r \<Rightarrow>
          if users_row_fits p (set_cols r) then Inr (users(uid \<mapsto> set_cols r))
          else Inl numeric_field_overflow)"

section \<open>Settlement triggers\<close>

text \<open>
  In every version \<^verbatim>\<open>SELECT debt_xs INTO seller_debt FROM users WHERE id = NEW.seller_id\<close>
  yields NULL when the seller has no row; \<^verbatim>\<open>IF seller_debt > 0\<close> is then not true and
  the \<^verbatim>\<open>ELSE\<close> branch runs (its \<^verbatim>\<open>UPDATE\<close> finds no row).
\<close>

text \<open>
  \<^verbatim>\<open>handle_seller_on_transaction_complete\<close> of \<^verbatim>\<open>20250101000000_initial_schema.sql\<close>
  (lines 128-169), run \<^verbatim>\<open>AFTER UPDATE OF status ON public.transactions\<close>. It debits the
  buyer after crediting the seller.
\<close>

definition handle_seller_on_transaction_complete_initial ::
  "tg_op \<Rightarrow> transactions_row \<Rightarrow> transactions_row \<Rightarrow> users_table \<Rightarrow> db_error + users_table" where
  "handle_seller_on_transaction_complete_initial TG_OP OLD NEW users =
     (if TG_OP = TG_UPDATE \<and> status NEW = Completed \<and> status OLD \<noteq> Completed then
        and_then
          (case map_option debt_xs (users (seller_id NEW)) of
             Some seller_debt \<Rightarrow>
               if seller_debt > 0 then
                 (let amortization_amount = min (amount NEW) seller_debt
                  in and_then
                       (update_users 10 users (seller_id NEW)
                          (\<lambda>r. r\<lparr>debt_xs := debt_xs r - amortization_amount\<rparr>))
                       (\<lambda>users1.
                          if amount NEW > amortization_amount then
                            update_users 10 users1 (seller_id NEW)
                              (\<lambda>r. r\<lparr>balance_xs := balance_xs r + (amount NEW - amortization_amount)\<rparr>)
                          else Inr users1))
               else update_users 10 users (seller_id NEW)
                      (\<lambda>r. r\<lparr>balance_xs := balance_xs r + amount NEW\<rparr>)
           | None \<Rightarrow>
               update_users 10 users (seller_id NEW)
                 (\<lambda>r. r\<lparr>balance_xs := balance_xs r + amount NEW\<rparr>))
          (\<lambda>users2.
             update_users 10 users2 (buyer_id NEW)
               (\<lambda>r. r\<lparr>balance_xs := balance_xs r - amount NEW\<rparr>))
      else Inr users)"

text \<open>
  \<^verbatim>\<open>amortize_loan_on_sale\<close> of the final reset script (\<^verbatim>\<open>unnamed/part_000\<close>, lines
  185-226), run \<^verbatim>\<open>AFTER UPDATE ON public.transactions\<close>. It debits the buyer as well.
\<close>

definition amortize_loan_on_sale ::
  "transactions_row \<Rightarrow> transactions_row \<Rightarrow> users_table \<Rightarrow> db_error + users_table" where
  "amortize_loan_on_sale OLD NEW users =
     (if status NEW = Completed \<and> status OLD \<noteq> Completed then
        and_then
          (case map_option debt_xs (users (seller_id NEW)) of
             Some seller_debt \<Rightarrow>
               if seller_debt > 0 then
                 (let amortization_amount = min (amount NEW) seller_debt
                  in and_then
                       (update_users 10 users (seller_id NEW)
                          (\<lambda>r. r\<lparr>debt_xs := debt_xs r - amortization_amount\<rparr>))
                       (\<lambda>users1.
                          if amount NEW > amortization_amount then
                            update_users 10 users1 (seller_id NEW)
                              (\<lambda>r. r\<lparr>balance_xs := balance_xs r + (amount NEW - amortization_amount)\<rparr>)
                          else Inr users1))
               else update_users 10 users (seller_id NEW)
                      (\<lambda>r. r\<lparr>balance_xs := balance_xs r + amount NEW\<rparr>)
           | None \<Rightarrow>
               update_users 10 users (seller_id NEW)
                 (\<lambda>r. r\<lparr>balance_xs := balance_xs r + amount NEW\<rparr>))
          (\<lambda>users2.
             update_users 10 users2 (buyer_id NEW)
               (\<lambda>r. r\<lparr>balance_xs := balance_xs r - amount NEW\<rparr>))
      else Inr users)"

text \<open>
  \<^verbatim>\<open>handle_seller_on_transaction_complete\<close> of the consolidated reset script
  (\<^verbatim>\<open>20250101000007_referral_system_and_security_fix.sql\<close>, lines 278-314), run
  \<^verbatim>\<open>AFTER UPDATE ON public.transactions\<close>
  \<^verbatim>\<open>WHEN (OLD.status IS DISTINCT FROM NEW.status)\<close>.
\<close>

definition handle_seller_on_transaction_complete_reset ::
  "transactions_row \<Rightarrow> transactions_row \<Rightarrow> timestamptz \<Rightarrow> users_table \<Rightarrow> db_error + users_table" where
  "handle_seller_on_transaction_complete_reset OLD NEW now users =
     (if status NEW = Completed \<and> status OLD \<noteq> Completed then
        (case map_option debt_xs (users (seller_id NEW)) of
           Some seller_debt \<Rightarrow>
             if seller_debt > 0 then
               (let payment_to_debt = min (amount NEW) seller_debt;
                    remaining_amount = amount NEW - payment_to_debt
                in update_users 10 users (seller_id NEW)
                     (\<lambda>r. r\<lparr>debt_xs := debt_xs r - payment_to_debt,
                             balance_xs := balance_xs r + remaining_amount,
                             updated_at := now\<rparr>))
             else update_users 10 users (seller_id NEW)
                    (\<lambda>r. r\<lparr>balance_xs := balance_xs r + amount NEW, updated_at := now\<rparr>)
         | None \<Rightarrow>
             update_users 10 users (seller_id NEW)
               (\<lambda>r. r\<lparr>balance_xs := balance_xs r + amount NEW, updated_at := now\<rparr>))
      else Inr users)"

text \<open>
  \<^verbatim>\<open>handle_debt_repayment\<close> (\<^verbatim>\<open>20250720113429_initial_schema.sql\<close>, lines 157-189), run
  \<^verbatim>\<open>AFTER UPDATE OF status ON transactions\<close>; the money columns of this script are
  \<^verbatim>\<open>NUMERIC(12, 2)\<close>.
\<close>

definition handle_debt_repayment ::
  "transactions_row \<Rightarrow> transactions_row \<Rightarrow> users_table \<Rightarrow> db_error + users_table" where
  "handle_debt_repayment OLD NEW users =
     (if status NEW = Completed \<and> status OLD \<noteq> Completed then
        (case map_option debt_xs (users (seller_id NEW)) of
           Some seller_debt \<Rightarrow>
             if seller_debt > 0 then
               (let repayment_amount = min (amount NEW) seller_debt
                in update_users 12 users (seller_id NEW)
                     (\<lambda>r. r\<lparr>debt_xs := debt_xs r - repayment_amount,
                             balance_xs := balance_xs r + (amount NEW - repayment_amount)\<rparr>))
             else update_users 12 users (seller_id NEW)
                    (\<lambda>r. r\<lparr>balance_xs := balance_xs r + amount NEW\<rparr>)
         | None \<Rightarrow>
             update_users 12 users (seller_id NEW)
               (\<lambda>r. r\<lparr>balance_xs := balance_xs r + amount NEW\<rparr>))
      else Inr users)"

text \<open>
  The version 2.0 script puts a \<^verbatim>\<open>BEFORE UPDATE\<close> trigger on \<^verbatim>\<open>users\<close>
  (\<^verbatim>\<open>update_updated_at_column\<close>, lines 454-460 and 556-559 of
  \<^verbatim>\<open>20250101000007_referral_system_and_security_fix.sql\<close>), so every update of a user
  row stamps it with \<^verbatim>\<open>now()\<close>.
\<close>

definition update_updated_at_column :: "timestamptz \<Rightarrow> users_row \<Rightarrow> users_row" where
  "update_updated_at_column now NEW = NEW\<lparr>updated_at := now\<rparr>"

text \<open>
  The platform schema script has a trigger function of the same name (lines 872-878
  and 881-882 of the same file) that assigns \<^verbatim>\<open>TIMEZONE('utc'::text, NOW())\<close>: the UTC
  wall-clock time, a timestamp without zone, which the column reads back in the
  session's time zone. Outside a UTC session that is another instant than \<^verbatim>\<open>now()\<close>;
  \<open>utc_now\<close> is the instant that gets stored.
\<close>

definition update_updated_at_column_platform :: "timestamptz \<Rightarrow> users_row \<Rightarrow> users_row" where
  "update_updated_at_column_platform utc_now NEW = NEW\<lparr>updated_at := utc_now\<rparr>"

text \<open>
  \<^verbatim>\<open>handle_seller_on_transaction_complete\<close> of the version 2.0 script
  (\<^verbatim>\<open>20250101000007_referral_system_and_security_fix.sql\<close>, lines 579-617), run
  \<^verbatim>\<open>BEFORE INSERT OR UPDATE ON public.transactions\<close>: the row it returns is the row that
  is stored. On an insert there is no \<^verbatim>\<open>OLD\<close> row (its fields read as NULL).
\<close>

definition handle_seller_on_transaction_complete_before ::
  "tg_op \<Rightarrow> transactions_row option \<Rightarrow> transactions_row \<Rightarrow> timestamptz \<Rightarrow> users_table \<Rightarrow>
     db_error + users_table \<times> transactions_row" where
  "handle_seller_on_transaction_complete_before TG_OP OLD NEW now users =
     (if status NEW = Completed \<and> (TG_OP = TG_INSERT \<or> Some (status NEW) \<noteq> map_option status OLD) then
        and_then
          (case map_option debt_xs (users (seller_id NEW)) of
             Some seller_current_debt \<Rightarrow>
               if seller_current_debt > 0 then
                 (let amortization_amount = min seller_current_debt (amount NEW);
                      remaining_sale_amount = amount NEW - amortization_amount
                  in update_users 10 users (seller_id NEW)
                       (\<lambda>r. update_updated_at_column now
                              (r\<lparr>debt_xs := debt_xs r - amortization_amount,
                                 balance_xs := balance_xs r + remaining_sale_amount\<rparr>)))
               else update_users 10 users (seller_id NEW)
                      (\<lambda>r. update_updated_at_column now (r\<lparr>balance_xs := balance_xs r + amount NEW\<rparr>))
           | None \<Rightarrow>
               update_users 10 users (seller_id NEW)
                 (\<lambda>r. update_updated_at_column now (r\<lparr>balance_xs := balance_xs r + amount NEW\<rparr>)))
          (\<lambda>users1. Inr (users1, NEW\<lparr>completed_at := Some now\<rparr>))
      else Inr (users, NEW))"

text \<open>
  \<^verbatim>\<open>process_transaction_amortization\<close> of the platform schema script
  (\<^verbatim>\<open>20250101000007_referral_system_and_security_fix.sql\<close>, lines 905-921), run
  \<^verbatim>\<open>AFTER UPDATE ON transactions\<close>. The right-hand sides of one \<^verbatim>\<open>UPDATE\<close> all read the
  row as it was. The money columns of this script may be NULL; the rows here hold
  numbers.
\<close>

definition process_transaction_amortization ::
  "transactions_row \<Rightarrow> transactions_row \<Rightarrow> timestamptz \<Rightarrow> users_table \<Rightarrow> db_error + users_table" where
  "process_transaction_amortization OLD NEW utc_now users =
     (if status NEW = Completed \<and> status OLD = Pending then
        update_users 10 users (seller_id NEW)
          (\<lambda>r. update_updated_at_column_platform utc_now
                 (r\<lparr>debt_xs := max 0 (debt_xs r - amount NEW),
                    balance_xs := (if debt_xs r \<ge> amount NEW then balance_xs r
                                   else balance_xs r + (amount NEW - debt_xs r))\<rparr>))
      else Inr users)"

text \<open>
  \<^verbatim>\<open>handle_seller_on_transaction_complete\<close> of the full reset script
  (\<^verbatim>\<open>unnamed/part_002\<close>, lines 169-207), run \<^verbatim>\<open>AFTER UPDATE ON public.transactions\<close>:
  the debt first, then what remains, if anything, to the balance.
\<close>

definition handle_seller_on_transaction_complete_full ::
  "tg_op \<Rightarrow> transactions_row \<Rightarrow> transactions_row \<Rightarrow> users_table \<Rightarrow> db_error + users_table" where
  "handle_seller_on_transaction_complete_full TG_OP OLD NEW users =
     (if TG_OP = TG_UPDATE \<and> status NEW = Completed \<and> status OLD \<noteq> Completed then
        and_then
          (case map_option debt_xs (users (seller_id NEW)) of
             Some seller_debt \<Rightarrow>
               if seller_debt > 0 then
                 (let amortization_amount = min (amount NEW) seller_debt
                  in and_then
                       (update_users 10 users (seller_id NEW)
                          (\<lambda>r. r\<lparr>debt_xs := debt_xs r - amortization_amount\<rparr>))
                       (\<lambda>users1. Inr (users1, amount NEW - amortization_amount)))
               else Inr (users, amount NEW)
           | None \<Rightarrow> Inr (users, amount NEW))
          (\<lambda>(users1, remaining_amount).
             if remaining_amount > 0 then
               update_users 10 users1 (seller_id NEW)
                 (\<lambda>r. r\<lparr>balance_xs := balance_xs r + remaining_amount\<rparr>)
             else Inr users1)
      else Inr users)"

text \<open>
  \<^verbatim>\<open>handle_seller_on_transaction_complete\<close> of the consolidated migration script
  (\<^verbatim>\<open>unnamed/part_004\<close>, lines 82-104), run \<^verbatim>\<open>AFTER UPDATE ON public.transactions\<close>.
\<close>

definition handle_seller_on_transaction_complete_consolidated ::
  "tg_op \<Rightarrow> transactions_row \<Rightarrow> transactions_row \<Rightarrow> users_table \<Rightarrow> db_error + users_table" where
  "handle_seller_on_transaction_complete_consolidated TG_OP OLD NEW users =
     (if TG_OP = TG_UPDATE \<and> status NEW = Completed \<and> status OLD \<noteq> Completed then
        and_then
          (case map_option debt_xs (users (seller_id NEW)) of
             Some seller_debt \<Rightarrow>
               if seller_debt > 0 then
                 (let payment_to_debt = min (amount NEW) seller_debt
                  in and_then
                       (update_users 10 users (seller_id NEW)
                          (\<lambda>r. r\<lparr>debt_xs := debt_xs r - payment_to_debt\<rparr>))
                       (\<lambda>users1. Inr (users1, amount NEW - payment_to_debt)))
               else Inr (users, amount NEW)
           | None \<Rightarrow> Inr (users, amount NEW))
          (\<lambda>(users1, remaining_amount).
             if remaining_amount > 0 then
               update_users 10 users1 (seller_id NEW)
                 (\<lambda>r. r\<lparr>balance_xs := balance_xs r + remaining_amount\<rparr>)
             else Inr users1)
      else Inr users)"

section \<open>Statements on the transactions table\<close>

text \<open>
  \<^verbatim>\<open>buyer_id\<close> and \<^verbatim>\<open>seller_id\<close> reference \<^verbatim>\<open>users(id)\<close> in every script: a row is
  refused (\<^verbatim>\<open>foreign_key_violation\<close>) unless both users exist.
\<close>

definition parties_exist :: "database \<Rightarrow> transactions_row \<Rightarrow> bool" where
  "parties_exist db NEW \<longleftrightarrow>
     public_users db (buyer_id NEW) \<noteq> None \<and> public_users db (seller_id NEW) \<noteq> None"

text \<open>
  \<^verbatim>\<open>UPDATE public.transactions SET ... WHERE id = tid\<close>: \<open>set_cols\<close> is the \<^verbatim>\<open>SET\<close> list,
  applied to the stored row (the values it assigns are taken to fit their columns).
  The foreign keys are checked before the trigger runs, and an \<^verbatim>\<open>AFTER\<close> trigger that
  fails aborts the statement.

  In the consolidated reset script the trigger carries
  \<^verbatim>\<open>WHEN (OLD.status IS DISTINCT FROM NEW.status)\<close> (lines 320-324).
\<close>

definition update_transactions_reset ::
  "timestamptz \<Rightarrow> database \<Rightarrow> uuid \<Rightarrow> (transactions_row \<Rightarrow> transactions_row) \<Rightarrow> db_error + database" where
  "update_transactions_reset now db tid set_cols =
     (case public_transactions db tid of
        None \<Rightarrow> Inr db
      | Some OLD \<Rightarrow>
          (let NEW = set_cols OLD in
           if \<not> parties_exist db NEW then Inl foreign_key_violation
           else if status OLD \<noteq> status NEW then
             and_then (handle_seller_on_transaction_complete_reset OLD NEW now (public_users db))
               (\<lambda>users1. Inr (db\<lparr>public_users := users1,
                                  public_transactions := (public_transactions db)(tid \<mapsto> NEW)\<rparr>))
           else Inr (db\<lparr>public_transactions := (public_transactions db)(tid \<mapsto> NEW)\<rparr>)))"

text \<open>
  In \<^verbatim>\<open>20250101000000_initial_schema.sql\<close> the trigger is \<^verbatim>\<open>AFTER UPDATE OF status\<close>
  (lines 173-176): it fires when \<^verbatim>\<open>status\<close> is named in the \<^verbatim>\<open>SET\<close> list
  (\<open>of_status\<close>), whatever value is assigned; a \<^verbatim>\<open>SET\<close> list that does not name
  it leaves the status as it was.
\<close>

definition update_transactions_initial ::
  "database \<Rightarrow> uuid \<Rightarrow> bool \<Rightarrow> (transactions_row \<Rightarrow> transactions_row) \<Rightarrow> db_error + database" where
  "update_transactions_initial db tid of_status set_cols =
     (case public_transactions db tid of
        None \<Rightarrow> Inr db
      | Some OLD \<Rightarrow>
          (let NEW = (if of_status then set_cols OLD else (set_cols OLD)\<lparr>status := status OLD\<rparr>) in
           if \<not> parties_exist db NEW then Inl foreign_key_violation
           else if of_status then
             and_then (handle_seller_on_transaction_complete_initial TG_UPDATE OLD NEW (public_users db))
               (\<lambda>users1. Inr (db\<lparr>public_users := users1,
                                  public_transactions := (public_transactions db)(tid \<mapsto> NEW)\<rparr>))
           else Inr (db\<lparr>public_transactions := (public_transactions db)(tid \<mapsto> NEW)\<rparr>)))"

text \<open>
  Statements one after the other on the same record, each a transaction of its own
  (one that fails leaves the database as it was): the number of them that change the
  \<^verbatim>\<open>users\<close> table. The status of a record is forward-only: a \<^verbatim>\<open>SET\<close> list never
  takes a record out of \<^verbatim>\<open>completed\<close>.
\<close>

definition completed_is_final :: "(transactions_row \<Rightarrow> transactions_row) \<Rightarrow> bool" where
  "completed_is_final set_cols \<longleftrightarrow> (\<forall>r. status r = Completed \<longrightarrow> status (set_cols r) = Completed)"

fun ledger_changes_reset ::
  "database \<Rightarrow> uuid \<Rightarrow> (timestamptz \<times> (transactions_row \<Rightarrow> transactions_row)) list \<Rightarrow> nat" where
  "ledger_changes_reset db tid [] = 0"
| "ledger_changes_reset db tid ((now, set_cols) # statements) =
     (case update_transactions_reset now db tid set_cols of
        Inl _ \<Rightarrow> ledger_changes_reset db tid statements
      | Inr db' \<Rightarrow>
          (if public_users db' = public_users db then 0 else 1)
            + ledger_changes_reset db' tid statements)"

fun ledger_changes_initial ::
  "database \<Rightarrow> uuid \<Rightarrow> (bool \<times> (transactions_row \<Rightarrow> transactions_row)) list \<Rightarrow> nat" where
  "ledger_changes_initial db tid [] = 0"
| "ledger_changes_initial db tid ((of_status, set_cols) # statements) =
     (case update_transactions_initial db tid of_status set_cols of
        Inl _ \<Rightarrow> ledger_changes_initial db tid statements
      | Inr db' \<Rightarrow>
          (if public_users db' = public_users db then 0 else 1)
            + ledger_changes_initial db' tid statements)"

text \<open>
  In \<^verbatim>\<open>20250720113429_initial_schema.sql\<close> the table carries
  \<^verbatim>\<open>CONSTRAINT buyer_seller_check CHECK (buyer_id <> seller_id)\<close> (line 134) and the
  trigger is \<^verbatim>\<open>AFTER UPDATE OF status\<close> (lines 192-195). The check is made on the new
  row before it is written, the foreign keys to \<^verbatim>\<open>users\<close> next, the trigger last.
\<close>

definition update_transactions_corrected ::
  "database \<Rightarrow> uuid \<Rightarrow> bool \<Rightarrow> (transactions_row \<Rightarrow> transactions_row) \<Rightarrow> db_error + database" where
  "update_transactions_corrected db tid of_status set_cols =
     (case public_transactions db tid of
        None \<Rightarrow> Inr db
      | Some OLD \<Rightarrow>
          (let NEW = (if of_status then set_cols OLD else (set_cols OLD)\<lparr>status := status OLD\<rparr>) in
           if buyer_id NEW = seller_id NEW then Inl check_violation
           else if \<not> parties_exist db NEW then Inl foreign_key_violation
           else if of_status then
             and_then (handle_debt_repayment OLD NEW (public_users db))
               (\<lambda>users1. Inr (db\<lparr>public_users := users1,
                                  public_transactions := (public_transactions db)(tid \<mapsto> NEW)\<rparr>))
           else Inr (db\<lparr>public_transactions := (public_transactions db)(tid \<mapsto> NEW)\<rparr>)))"

text \<open>
  \<^verbatim>\<open>INSERT INTO transactions\<close> of a row with id \<open>tid\<close>, in the same script: the check
  constraint, the primary key, the foreign keys. No trigger of this script fires on
  an insert.
\<close>

definition insert_transactions_corrected ::
  "database \<Rightarrow> uuid \<Rightarrow> transactions_row \<Rightarrow> db_error + database" where
  "insert_transactions_corrected db tid NEW =
     (if buyer_id NEW = seller_id NEW then Inl check_violation
      else if public_transactions db tid \<noteq> None then Inl unique_violation
      else if \<not> parties_exist db NEW then Inl foreign_key_violation
      else Inr (db\<lparr>public_transactions := (public_transactions db)(tid \<mapsto> NEW)\<rparr>))"

text \<open>
  The same insert in the consolidated reset script, whose \<^verbatim>\<open>transactions\<close> table
  (\<^verbatim>\<open>20250101000007_referral_system_and_security_fix.sql\<close>, lines 232-245) has no check
  constraint on the two parties.
\<close>

definition insert_transactions_reset ::
  "database \<Rightarrow> uuid \<Rightarrow> transactions_row \<Rightarrow> db_error + database" where
  "insert_transactions_reset db tid NEW =
     (if public_transactions db tid \<noteq> None then Inl unique_violation
      else if \<not> parties_exist db NEW then Inl foreign_key_violation
      else Inr (db\<lparr>public_transactions := (public_transactions db)(tid \<mapsto> NEW)\<rparr>))"

section \<open>Referral bonus\<close>

text \<open>
  \<^verbatim>\<open>UPDATE public.users SET balance_bonus = balance_bonus + amount WHERE id = uid\<close> with
  an amount that may be NULL: the sum is then NULL, which the \<^verbatim>\<open>NOT NULL\<close> column
  refuses for every row the statement reaches.
\<close>

definition add_balance_bonus :: "users_table \<Rightarrow> uuid \<Rightarrow> int option \<Rightarrow> db_error + users_table" where
  "add_balance_bonus users uid bonus_amount =
     (case users uid of
        None \<Rightarrow> Inr users
      | Some _ \<Rightarrow>
          (case bonus_amount of
             None \<Rightarrow> Inl not_null_violation
           | Some a \<Rightarrow> update_users 10 users uid (\<lambda>r. r\<lparr>balance_bonus := balance_bonus r + a\<rparr>)))"

text \<open>
  \<^verbatim>\<open>grant_referral_bonus(approved_user_id)\<close>
  (\<^verbatim>\<open>20250101000007_referral_system_and_security_fix.sql\<close>, lines 41-83). The amounts come
  from the \<^verbatim>\<open>referral_bonus\<close> row of \<^verbatim>\<open>system_settings\<close>; a missing row or field reads
  as NULL. The function is one transaction: on an error nothing is kept.
\<close>

definition grant_referral_bonus :: "database \<Rightarrow> uuid \<Rightarrow> db_error + database" where
  "grant_referral_bonus db approved_user_id =
     (if map_option referral_bonus_paid (public_users db approved_user_id) = Some True then Inr db
      else
        (case Option.bind (public_users db approved_user_id) referred_by of
           None \<Rightarrow> Inr db
         | Some referrer_id \<Rightarrow>
             (let bonus_settings = public_system_settings db ''referral_bonus'';
                  referrer_bonus_amount = Option.bind bonus_settings (\<lambda>v. v ''referrer'');
                  referee_bonus_amount = Option.bind bonus_settings (\<lambda>v. v ''referee'')
              in and_then (add_balance_bonus (public_users db) referrer_id referrer_bonus_amount)
                   (\<lambda>users1.
                 and_then (add_balance_bonus users1 approved_user_id referee_bonus_amount)
                   (\<lambda>users2.
                 and_then (update_users 10 users2 approved_user_id
                             (\<lambda>r. r\<lparr>referral_bonus_paid := True\<rparr>))
                   (\<lambda>users3. Inr (db\<lparr>public_users := users3\<rparr>)))))))"

text \<open>
  The caller (\<^verbatim>\<open>UserEditModal.tsx\<close>, lines 59-65) invokes the function through
  \<^verbatim>\<open>supabase.rpc\<close>, logs an error and goes on: a failed call leaves the database as it
  was. \<open>notify_user_approved n\<close> is \<open>n\<close> such calls in a row.
\<close>

definition rpc_grant_referral_bonus :: "uuid \<Rightarrow> database \<Rightarrow> database" where
  "rpc_grant_referral_bonus approved_user_id db =
     (case grant_referral_bonus db approved_user_id of Inl _ \<Rightarrow> db | Inr db' \<Rightarrow> db')"

fun notify_user_approved :: "nat \<Rightarrow> uuid \<Rightarrow> database \<Rightarrow> database" where
  "notify_user_approved 0 approved_user_id db = db"
| "notify_user_approved (Suc n) approved_user_id db =
     notify_user_approved n approved_user_id (rpc_grant_referral_bonus approved_user_id db)"

section \<open>Referral codes\<close>

text \<open>
  \<^verbatim>\<open>substr(string, start, count)\<close> of PostgreSQL: the characters at the positions
  \<open>start, ..., start + count - 1\<close> that exist, positions counted from 1. So
  \<^verbatim>\<open>substr(s, 0, 7)\<close> is the first six characters. (PostgreSQL refuses a negative
  count; the calls here pass the literal 7.) \<^verbatim>\<open>upper\<close> is taken on ASCII, which is
  all a digest holds.
\<close>

definition substr :: "string \<Rightarrow> int \<Rightarrow> int \<Rightarrow> string" where
  "substr s start count = drop (nat (max start 1 - 1)) (take (nat (start + count - 1)) s)"

definition upper_char :: "char \<Rightarrow> char" where
  "upper_char c =
     (let n = (of_char c :: nat) in if 97 \<le> n \<and> n \<le> 122 then char_of (n - 32) else c)"

definition upper :: "string \<Rightarrow> string" where
  "upper s = map upper_char s"

text \<open>
  \<^verbatim>\<open>md5(random()::text)\<close> is not computed here: the functions take the digests their
  calls of it return, one for each turn of the loop, as a list. A digest is 32
  lower-case hexadecimal digits.
\<close>

definition md5_digest :: "string \<Rightarrow> bool" where
  "md5_digest d \<longleftrightarrow> length d = 32 \<and> list_all (\<lambda>c. c \<in> set ''0123456789abcdef'') d"

definition uppercase_alphanumeric :: "string \<Rightarrow> bool" where
  "uppercase_alphanumeric s \<longleftrightarrow>
     list_all (\<lambda>c. c \<in> set ''ABCDEFGHIJKLMNOPQRSTUVWXYZ0123456789'') s"

text \<open>
  \<^verbatim>\<open>generate_unique_referral_code()\<close> of \<^verbatim>\<open>20250101000000_initial_schema.sql\<close>
  (lines 30-44). \<open>referral_codes\<close> is the column \<^verbatim>\<open>users.referral_code\<close>, all the
  function reads of the database. The loop has no bound: with the digests used up
  and every candidate taken the function has not returned (\<open>None\<close>). The result
  comes with the digests not yet drawn.
\<close>

fun generate_unique_referral_code ::
  "string list \<Rightarrow> string list \<Rightarrow> (string \<times> string list) option" where
  "generate_unique_referral_code [] referral_codes = None"
| "generate_unique_referral_code (digest # digests) referral_codes =
     (let new_code = upper (substr digest 0 7) in
      if new_code \<in> set referral_codes
      then generate_unique_referral_code digests referral_codes
      else Some (new_code, digests))"

text \<open>
  \<^verbatim>\<open>generate_referral_code()\<close> of the consolidated migration script
  (\<^verbatim>\<open>unnamed/part_004\<close>, lines 53-75): the 36 characters, one per row, ordered by a
  \<^verbatim>\<open>random()\<close> key each, the first 8 joined in that order. A draw gives the key of the
  row at each index; the loop and the check are those of
  \<^verbatim>\<open>generate_unique_referral_code\<close>.
\<close>

definition shuffled_alphabet :: "(nat \<Rightarrow> nat) \<Rightarrow> string" where
  "shuffled_alphabet random =
     map snd (sort_key fst
       (map (\<lambda>i. (random i, ''ABCDEFGHIJKLMNOPQRSTUVWXYZ0123456789'' ! i)) [0..<36]))"

fun generate_referral_code_consolidated ::
  "(nat \<Rightarrow> nat) list \<Rightarrow> string list \<Rightarrow> (string \<times> (nat \<Rightarrow> nat) list) option" where
  "generate_referral_code_consolidated [] referral_codes = None"
| "generate_referral_code_consolidated (random # draws) referral_codes =
     (let new_code = take 8 (shuffled_alphabet random) in
      if new_code \<in> set referral_codes
      then generate_referral_code_consolidated draws referral_codes
      else Some (new_code, draws))"

text \<open>
  \<^verbatim>\<open>generate_referral_code()\<close> of the final reset script (\<^verbatim>\<open>unnamed/part_000\<close>, lines
  106-112), a \<^verbatim>\<open>BEFORE INSERT\<close> trigger on \<^verbatim>\<open>users\<close>: the code it puts into the new
  row. It makes no check against the table.
\<close>

definition generate_referral_code_final :: "string \<Rightarrow> string" where
  "generate_referral_code_final digest = ''XP-'' @ substr digest 0 7"

text \<open>
  The codes the two looping generators can produce: six upper-case hexadecimal
  digits, and eight different characters of the 36.
\<close>

definition code_space_initial :: "string \<Rightarrow> bool" where
  "code_space_initial c \<longleftrightarrow> length c = 6 \<and> list_all (\<lambda>x. x \<in> set ''0123456789ABCDEF'') c"

definition code_space_consolidated :: "string \<Rightarrow> bool" where
  "code_space_consolidated c \<longleftrightarrow>
     length c = 8 \<and> distinct c \<and> list_all (\<lambda>x. x \<in> set ''ABCDEFGHIJKLMNOPQRSTUVWXYZ0123456789'') c"

text \<open>
  New users one after the other, each with the default of its \<^verbatim>\<open>referral_code\<close>
  column: the code generated is in the column when the next one is generated.
\<close>

fun insert_users_initial ::
  "nat \<Rightarrow> string list \<Rightarrow> string list \<Rightarrow> string list option" where
  "insert_users_initial 0 digests referral_codes = Some []"
| "insert_users_initial (Suc k) digests referral_codes =
     (case generate_unique_referral_code digests referral_codes of
        None \<Rightarrow> None
      | Some (new_code, rest) \<Rightarrow>
          map_option (\<lambda>codes. new_code # codes)
            (insert_users_initial k rest (new_code # referral_codes)))"

fun insert_users_consolidated ::
  "nat \<Rightarrow> (nat \<Rightarrow> nat) list \<Rightarrow> string list \<Rightarrow> string list option" where
  "insert_users_consolidated 0 draws referral_codes = Some []"
| "insert_users_consolidated (Suc k) draws referral_codes =
     (case generate_referral_code_consolidated draws referral_codes of
        None \<Rightarrow> None
      | Some (new_code, rest) \<Rightarrow>
          map_option (\<lambda>codes. new_code # codes)
            (insert_users_consolidated k rest (new_code # referral_codes)))"

section \<open>Properties\<close>

lemma update_users_Some:
  "users uid = Some r \<Longrightarrow>
   update_users p users uid f =
     (if users_row_fits p (f r) then Inr (users(uid \<mapsto> f r)) else Inl numeric_field_overflow)"
  by (simp add: update_users_def)

lemma update_users_None: "users uid = None \<Longrightarrow> update_users p users uid f = Inr users"
  by (simp add: update_users_def)

subsection \<open>Amortization\<close>

lemma users_row_debt_zero:
  "debt_xs r = 0 \<Longrightarrow> r\<lparr>debt_xs := 0, balance_xs := b\<rparr> = r\<lparr>balance_xs := b\<rparr>"
  by (cases r) simp

lemma settle_reset_exact:
  assumes "users (seller_id NEW) = Some r" "0 \<le> debt_xs r" "0 < amount NEW"
    "status NEW = Completed" "status OLD \<noteq> Completed"
  shows "handle_seller_on_transaction_complete_reset OLD NEW now users =
     (let r' = r\<lparr>debt_xs := debt_xs r - min (amount NEW) (debt_xs r),
                balance_xs := balance_xs r + max (amount NEW - debt_xs r) 0, updated_at := now\<rparr>
      in if users_row_fits 10 r' then Inr (users(seller_id NEW \<mapsto> r')) else Inl numeric_field_overflow)"
proof (cases "debt_xs r > 0")
  case True
  then show ?thesis using assms
    by (simp add: handle_seller_on_transaction_complete_reset_def update_users_Some Let_def min_def max_def)
next
  case False
  with assms have z: "debt_xs r = 0" by simp
  show ?thesis using assms z
    by (simp add: handle_seller_on_transaction_complete_reset_def update_users_Some Let_def
        users_row_debt_zero)
qed

lemma settle_repayment_exact:
  assumes "users (seller_id NEW) = Some r" "0 \<le> debt_xs r" "0 < amount NEW"
    "status NEW = Completed" "status OLD \<noteq> Completed"
  shows "handle_debt_repayment OLD NEW users =
     (let r' = r\<lparr>debt_xs := debt_xs r - min (amount NEW) (debt_xs r),
                balance_xs := balance_xs r + max (amount NEW - debt_xs r) 0\<rparr>
      in if users_row_fits 12 r' then Inr (users(seller_id NEW \<mapsto> r')) else Inl numeric_field_overflow)"
proof (cases "debt_xs r > 0")
  case True
  then show ?thesis using assms
    by (simp add: handle_debt_repayment_def update_users_Some Let_def min_def max_def)
next
  case False
  with assms have z: "debt_xs r = 0" by simp
  show ?thesis using assms z
    by (simp add: handle_debt_repayment_def update_users_Some Let_def users_row_debt_zero)
qed

text \<open>
  C1 (amortization correctness). For a seller with debt \<open>D \<ge> 0\<close> and a transaction of
  amount \<open>A > 0\<close> whose status moves to \<^verbatim>\<open>completed\<close>, settlement leaves the seller
  with debt \<open>D - min A D\<close> and balance raised by \<open>max (A - D) 0\<close>, exactly, in the
  consolidated reset script's trigger and in \<^verbatim>\<open>handle_debt_repayment\<close>; nothing else of
  the table changes but the row's \<^verbatim>\<open>updated_at\<close> in the former. The settlement fails as a
  whole (\<^verbatim>\<open>numeric_field_overflow\<close>) exactly when the new balance no longer fits its
  column.
\<close>

theorem settlement_amortization_exact:
  assumes "users (seller_id NEW) = Some r" and "0 \<le> debt_xs r" and "0 < amount NEW"
    and "status NEW = Completed" and "status OLD \<noteq> Completed"
  shows "handle_seller_on_transaction_complete_reset OLD NEW now users =
           (let r' = r\<lparr>debt_xs := debt_xs r - min (amount NEW) (debt_xs r),
                      balance_xs := balance_xs r + max (amount NEW - debt_xs r) 0,
                      updated_at := now\<rparr>
            in if users_row_fits 10 r' then Inr (users(seller_id NEW \<mapsto> r'))
               else Inl numeric_field_overflow)
       \<and> handle_debt_repayment OLD NEW users =
           (let r' = r\<lparr>debt_xs := debt_xs r - min (amount NEW) (debt_xs r),
                      balance_xs := balance_xs r + max (amount NEW - debt_xs r) 0\<rparr>
            in if users_row_fits 12 r' then Inr (users(seller_id NEW \<mapsto> r'))
               else Inl numeric_field_overflow)"
  using assms settle_reset_exact [of users NEW r OLD now] settle_repayment_exact [of users NEW r OLD]
  by simp

theorem settlement_amortization_exact_witness:
  "handle_seller_on_transaction_complete_reset
     \<lparr>buyer_id = 1, seller_id = 2, amount = 10000, status = Pending, completed_at = None\<rparr>
     \<lparr>buyer_id = 1, seller_id = 2, amount = 10000, status = Completed, completed_at = None\<rparr>
     5
     [2 \<mapsto> \<lparr>balance_xs = 1000, balance_bonus = 0, debt_xs = 4000, referred_by = None,
             referral_bonus_paid = False, updated_at = 0\<rparr>]
   = Inr [2 \<mapsto> \<lparr>balance_xs = 7000, balance_bonus = 0, debt_xs = 0, referred_by = None,
             referral_bonus_paid = False, updated_at = 5\<rparr>]
   \<and> handle_debt_repayment
     \<lparr>buyer_id = 1, seller_id = 2, amount = 10000, status = Pending, completed_at = None\<rparr>
     \<lparr>buyer_id = 1, seller_id = 2, amount = 10000, status = Completed, completed_at = None\<rparr>
     [2 \<mapsto> \<lparr>balance_xs = 1000, balance_bonus = 0, debt_xs = 4000, referred_by = None,
             referral_bonus_paid = False, updated_at = 0\<rparr>]
   = Inr [2 \<mapsto> \<lparr>balance_xs = 7000, balance_bonus = 0, debt_xs = 0, referred_by = None,
             referral_bonus_paid = False, updated_at = 0\<rparr>]"
  using settlement_amortization_exact
    [of "[2 \<mapsto> \<lparr>balance_xs = 1000, balance_bonus = 0, debt_xs = 4000, referred_by = None,
             referral_bonus_paid = False, updated_at = 0\<rparr>]"
        "\<lparr>buyer_id = 1, seller_id = 2, amount = 10000, status = Completed, completed_at = None\<rparr>"
        "\<lparr>balance_xs = 1000, balance_bonus = 0, debt_xs = 4000, referred_by = None,
             referral_bonus_paid = False, updated_at = 0\<rparr>"
        "\<lparr>buyer_id = 1, seller_id = 2, amount = 10000, status = Pending, completed_at = None\<rparr>"
        5]
  by (simp add: users_row_fits_def numeric_fits_def)

subsection \<open>The debt stays non-negative\<close>

lemma debt_reset:
  assumes "users (seller_id NEW) = Some r" "0 \<le> debt_xs r" "0 < amount NEW"
    "handle_seller_on_transaction_complete_reset OLD NEW now users = Inr users'"
  shows "\<exists>r'. users' (seller_id NEW) = Some r' \<and> 0 \<le> debt_xs r' \<and>
           debt_xs r' = (if status NEW = Completed \<and> status OLD \<noteq> Completed
                         then debt_xs r - min (amount NEW) (debt_xs r) else debt_xs r)"
  using assms
  by (auto simp: handle_seller_on_transaction_complete_reset_def update_users_Some Let_def
      split: if_splits)

lemma debt_amortization:
  assumes "users (seller_id NEW) = Some r" "0 \<le> debt_xs r" "0 < amount NEW"
    "process_transaction_amortization OLD NEW now users = Inr users'"
  shows "\<exists>r'. users' (seller_id NEW) = Some r' \<and> 0 \<le> debt_xs r' \<and>
           debt_xs r' = (if status NEW = Completed \<and> status OLD = Pending
                         then debt_xs r - min (amount NEW) (debt_xs r) else debt_xs r)"
  using assms
  by (auto simp: process_transaction_amortization_def update_users_Some Let_def
      update_updated_at_column_platform_def split: if_splits)

text \<open>
  C8 (debt never negative). A seller whose debt is \<open>\<ge> 0\<close> still has a debt \<open>\<ge> 0\<close>
  after the trigger has run on a transaction of positive amount, in
  \<^verbatim>\<open>process_transaction_amortization\<close> and in the consolidated reset script's trigger:
  when the trigger settles, the debt goes down by \<open>min amount debt\<close>, and otherwise it
  stays.
\<close>

theorem debt_never_negative:
  assumes "users (seller_id NEW) = Some r" and "0 \<le> debt_xs r" and "0 < amount NEW"
  shows "(\<forall>users'. process_transaction_amortization OLD NEW now users = Inr users' \<longrightarrow>
            (\<exists>r'. users' (seller_id NEW) = Some r' \<and> 0 \<le> debt_xs r' \<and>
               debt_xs r' = (if status NEW = Completed \<and> status OLD = Pending
                             then debt_xs r - min (amount NEW) (debt_xs r) else debt_xs r)))
       \<and> (\<forall>users'. handle_seller_on_transaction_complete_reset OLD NEW now users = Inr users' \<longrightarrow>
            (\<exists>r'. users' (seller_id NEW) = Some r' \<and> 0 \<le> debt_xs r' \<and>
               debt_xs r' = (if status NEW = Completed \<and> status OLD \<noteq> Completed
                             then debt_xs r - min (amount NEW) (debt_xs r) else debt_xs r)))"
  using assms debt_reset [of users NEW r OLD now] debt_amortization [of users NEW r OLD now]
  by blast

theorem debt_never_negative_witness:
  "process_transaction_amortization
     \<lparr>buyer_id = 1, seller_id = 2, amount = 10000, status = Pending, completed_at = None\<rparr>
     \<lparr>buyer_id = 1, seller_id = 2, amount = 10000, status = Completed, completed_at = None\<rparr>
     5
     [2 \<mapsto> \<lparr>balance_xs = 1000, balance_bonus = 0, debt_xs = 4000, referred_by = None,
             referral_bonus_paid = False, updated_at = 0\<rparr>]
   = Inr [2 \<mapsto> \<lparr>balance_xs = 7000, balance_bonus = 0, debt_xs = 0, referred_by = None,
             referral_bonus_paid = False, updated_at = 5\<rparr>]
   \<and> (\<exists>r'. [2 \<mapsto> \<lparr>balance_xs = 7000, balance_bonus = 0, debt_xs = 0, referred_by = None,
             referral_bonus_paid = False, updated_at = 5\<rparr>] (2::nat) = Some r' \<and> 0 \<le> debt_xs r' \<and>
          debt_xs r' = 4000 - min 10000 4000)"
proof -
  let ?OLD = "\<lparr>buyer_id = 1, seller_id = 2, amount = 10000, status = Pending, completed_at = None\<rparr>"
  let ?NEW = "\<lparr>buyer_id = 1, seller_id = 2, amount = 10000, status = Completed, completed_at = None\<rparr>"
  let ?r = "\<lparr>balance_xs = 1000, balance_bonus = 0, debt_xs = 4000, referred_by = None,
             referral_bonus_paid = False, updated_at = 0\<rparr>"
  let ?r' = "\<lparr>balance_xs = 7000, balance_bonus = 0, debt_xs = 0, referred_by = None,
             referral_bonus_paid = False, updated_at = 5\<rparr>"
  have run: "process_transaction_amortization ?OLD ?NEW 5 [2 \<mapsto> ?r] = Inr [2 \<mapsto> ?r']"
    by (simp add: process_transaction_amortization_def update_users_def users_row_fits_def
        numeric_fits_def update_updated_at_column_platform_def)
  from debt_never_negative [of "[2 \<mapsto> ?r]" ?NEW ?r ?OLD 5] run
  show ?thesis by simp
qed

subsection \<open>Settlement happens once\<close>

lemma update_users_dom:
  "update_users p users uid f = Inr users' \<Longrightarrow> users' x = None \<longleftrightarrow> users x = None"
  by (auto simp: update_users_def split: option.splits if_splits)

lemma reset_dom:
  "handle_seller_on_transaction_complete_reset OLD NEW now users = Inr users' \<Longrightarrow>
   users' x = None \<longleftrightarrow> users x = None"
  by (auto simp: handle_seller_on_transaction_complete_reset_def Let_def
      dest: update_users_dom split: if_splits option.splits)

lemma initial_dom:
  "handle_seller_on_transaction_complete_initial TG_OP OLD NEW users = Inr users' \<Longrightarrow>
   users' x = None \<longleftrightarrow> users x = None"
  by (auto simp: handle_seller_on_transaction_complete_initial_def Let_def and_then_def
      dest: update_users_dom split: if_splits option.splits sum.splits)

lemma reset_guard: "status OLD = Completed \<Longrightarrow>
   handle_seller_on_transaction_complete_reset OLD NEW now users = Inr users"
  by (simp add: handle_seller_on_transaction_complete_reset_def)

lemma initial_guard: "status OLD = Completed \<Longrightarrow>
   handle_seller_on_transaction_complete_initial TG_OP OLD NEW users = Inr users"
  by (simp add: handle_seller_on_transaction_complete_initial_def)

lemma update_reset_completed:
  assumes "public_transactions db tid = Some OLD" "status OLD = Completed"
  shows "update_transactions_reset now db tid set_cols =
           (if parties_exist db (set_cols OLD)
            then Inr (db\<lparr>public_transactions := (public_transactions db)(tid \<mapsto> set_cols OLD)\<rparr>)
            else Inl foreign_key_violation)"
  using assms by (simp add: update_transactions_reset_def Let_def reset_guard and_then_def)

lemma update_initial_completed:
  assumes "public_transactions db tid = Some OLD" "status OLD = Completed"
  shows "update_transactions_initial db tid of_status set_cols =
           (let NEW = (if of_status then set_cols OLD else (set_cols OLD)\<lparr>status := status OLD\<rparr>)
            in if parties_exist db NEW
               then Inr (db\<lparr>public_transactions := (public_transactions db)(tid \<mapsto> NEW)\<rparr>)
               else Inl foreign_key_violation)"
  using assms by (simp add: update_transactions_initial_def Let_def initial_guard and_then_def)

lemma update_reset_after:
  assumes "update_transactions_reset now db tid set_cols = Inr db'"
    "public_transactions db tid = Some OLD"
  shows "public_transactions db' tid = Some (set_cols OLD) \<and> parties_exist db' (set_cols OLD)"
proof (cases "status OLD \<noteq> status (set_cols OLD)")
  case True
  with assms obtain users1 where
    t: "handle_seller_on_transaction_complete_reset OLD (set_cols OLD) now (public_users db) = Inr users1"
    and d: "db' = db\<lparr>public_users := users1,
                      public_transactions := (public_transactions db)(tid \<mapsto> set_cols OLD)\<rparr>"
    and fk: "parties_exist db (set_cols OLD)"
    by (auto simp: update_transactions_reset_def Let_def and_then_def split: if_splits sum.splits)
  from fk reset_dom [OF t] have "parties_exist db' (set_cols OLD)"
    by (simp add: parties_exist_def d)
  with d show ?thesis by simp
next
  case False
  with assms show ?thesis
    by (auto simp: update_transactions_reset_def Let_def parties_exist_def split: if_splits)
qed

lemma update_initial_after:
  assumes "update_transactions_initial db tid True set_cols = Inr db'"
    "public_transactions db tid = Some OLD"
  shows "public_transactions db' tid = Some (set_cols OLD) \<and> parties_exist db' (set_cols OLD)"
proof -
  from assms obtain users1 where
    t: "handle_seller_on_transaction_complete_initial TG_UPDATE OLD (set_cols OLD) (public_users db)
          = Inr users1"
    and d: "db' = db\<lparr>public_users := users1,
                      public_transactions := (public_transactions db)(tid \<mapsto> set_cols OLD)\<rparr>"
    and fk: "parties_exist db (set_cols OLD)"
    by (auto simp: update_transactions_initial_def Let_def and_then_def split: if_splits sum.splits)
  from fk initial_dom [OF t] have "parties_exist db' (set_cols OLD)"
    by (simp add: parties_exist_def d)
  with d show ?thesis by simp
qed

lemma parties_exist_status [simp]:
  "parties_exist db (r\<lparr>status := s\<rparr>) = parties_exist db r"
  by (simp add: parties_exist_def)

lemma second_request_reset:
  assumes "update_transactions_reset now db tid (\<lambda>r. r\<lparr>status := Completed\<rparr>) = Inr db1"
  shows "update_transactions_reset now' db1 tid (\<lambda>r. r\<lparr>status := Completed\<rparr>) = Inr db1"
proof (cases "public_transactions db tid")
  case None
  with assms have "db1 = db" by (simp add: update_transactions_reset_def)
  with None show ?thesis by (simp add: update_transactions_reset_def)
next
  case (Some OLD)
  from update_reset_after [OF assms Some]
  have row: "public_transactions db1 tid = Some (OLD\<lparr>status := Completed\<rparr>)"
    and fk: "parties_exist db1 OLD" by simp_all
  have "(public_transactions db1)(tid \<mapsto> OLD\<lparr>status := Completed\<rparr>) = public_transactions db1"
    using row by (simp add: fun_upd_idem)
  then show ?thesis
    using update_reset_completed [OF row, of now' "\<lambda>r. r\<lparr>status := Completed\<rparr>"] fk by simp
qed

lemma second_request_initial:
  assumes "update_transactions_initial db tid True (\<lambda>r. r\<lparr>status := Completed\<rparr>) = Inr db1"
  shows "update_transactions_initial db1 tid True (\<lambda>r. r\<lparr>status := Completed\<rparr>) = Inr db1"
proof (cases "public_transactions db tid")
  case None
  with assms have "db1 = db" by (simp add: update_transactions_initial_def)
  with None show ?thesis by (simp add: update_transactions_initial_def)
next
  case (Some OLD)
  from update_initial_after [OF assms Some]
  have row: "public_transactions db1 tid = Some (OLD\<lparr>status := Completed\<rparr>)"
    and fk: "parties_exist db1 OLD" by simp_all
  have "(public_transactions db1)(tid \<mapsto> OLD\<lparr>status := Completed\<rparr>) = public_transactions db1"
    using row by (simp add: fun_upd_idem)
  then show ?thesis
    using update_initial_completed [OF row, of True "\<lambda>r. r\<lparr>status := Completed\<rparr>"] fk by simp
qed

lemma update_reset_users_changed:
  assumes "update_transactions_reset now db tid set_cols = Inr db'"
    and "public_users db' \<noteq> public_users db"
  shows "\<exists>r. public_transactions db' tid = Some r \<and> status r = Completed"
  using assms
  by (auto simp: update_transactions_reset_def Let_def and_then_def
        handle_seller_on_transaction_complete_reset_def
      split: option.splits if_splits sum.splits)

lemma update_initial_users_changed:
  assumes "update_transactions_initial db tid of_status set_cols = Inr db'"
    and "public_users db' \<noteq> public_users db"
  shows "\<exists>r. public_transactions db' tid = Some r \<and> status r = Completed"
  using assms
  by (auto simp: update_transactions_initial_def Let_def and_then_def
        handle_seller_on_transaction_complete_initial_def
      split: option.splits if_splits sum.splits)

lemma ledger_changes_reset_completed:
  assumes "list_all (\<lambda>(now, set_cols). completed_is_final set_cols) statements"
    and "public_transactions db tid = Some r" and "status r = Completed"
  shows "ledger_changes_reset db tid statements = 0"
  using assms
proof (induction statements arbitrary: db r)
  case Nil
  then show ?case by simp
next
  case (Cons st statements)
  obtain now set_cols where st: "st = (now, set_cols)" by (cases st)
  with Cons.prems have fin: "completed_is_final set_cols"
    and rest: "list_all (\<lambda>(now, set_cols). completed_is_final set_cols) statements" by simp_all
  from fin Cons.prems(3) have s': "status (set_cols r) = Completed"
    by (simp add: completed_is_final_def)
  note u = update_reset_completed [OF Cons.prems(2,3), of now set_cols]
  show ?case
  proof (cases "parties_exist db (set_cols r)")
    case True
    let ?db' = "db\<lparr>public_transactions := (public_transactions db)(tid \<mapsto> set_cols r)\<rparr>"
    from True u have "update_transactions_reset now db tid set_cols = Inr ?db'" by simp
    moreover have "ledger_changes_reset ?db' tid statements = 0"
      by (rule Cons.IH [OF rest _ s']) simp
    ultimately show ?thesis by (simp add: st)
  next
    case False
    with u have "update_transactions_reset now db tid set_cols = Inl foreign_key_violation" by simp
    moreover have "ledger_changes_reset db tid statements = 0"
      by (rule Cons.IH [OF rest Cons.prems(2,3)])
    ultimately show ?thesis by (simp add: st)
  qed
qed

lemma ledger_changes_reset_once:
  assumes "list_all (\<lambda>(now, set_cols). completed_is_final set_cols) statements"
  shows "ledger_changes_reset db tid statements \<le> 1"
  using assms
proof (induction statements arbitrary: db)
  case Nil
  then show ?case by simp
next
  case (Cons st statements)
  obtain now set_cols where st: "st = (now, set_cols)" by (cases st)
  with Cons.prems have
    rest: "list_all (\<lambda>(now, set_cols). completed_is_final set_cols) statements" by simp
  show ?case
  proof (cases "update_transactions_reset now db tid set_cols")
    case (Inl e)
    with Cons.IH [OF rest, of db] show ?thesis by (simp add: st)
  next
    case (Inr db')
    show ?thesis
    proof (cases "public_users db' = public_users db")
      case True
      with Inr Cons.IH [OF rest, of db'] show ?thesis by (simp add: st)
    next
      case False
      from update_reset_users_changed [OF Inr False] obtain r
        where "public_transactions db' tid = Some r" "status r = Completed" by blast
      from ledger_changes_reset_completed [OF rest this]
      show ?thesis using Inr False by (simp add: st)
    qed
  qed
qed

lemma ledger_changes_initial_completed:
  assumes "list_all (\<lambda>(of_status, set_cols). completed_is_final set_cols) statements"
    and "public_transactions db tid = Some r" and "status r = Completed"
  shows "ledger_changes_initial db tid statements = 0"
  using assms
proof (induction statements arbitrary: db r)
  case Nil
  then show ?case by simp
next
  case (Cons st statements)
  obtain of_status set_cols where st: "st = (of_status, set_cols)" by (cases st)
  with Cons.prems have fin: "completed_is_final set_cols"
    and rest: "list_all (\<lambda>(of_status, set_cols). completed_is_final set_cols) statements"
    by simp_all
  let ?NEW = "if of_status then set_cols r else (set_cols r)\<lparr>status := status r\<rparr>"
  from fin Cons.prems(3) have s': "status ?NEW = Completed"
    by (simp add: completed_is_final_def)
  note u = update_initial_completed [OF Cons.prems(2,3), of of_status set_cols]
  show ?case
  proof (cases "parties_exist db ?NEW")
    case True
    let ?db' = "db\<lparr>public_transactions := (public_transactions db)(tid \<mapsto> ?NEW)\<rparr>"
    from True u have "update_transactions_initial db tid of_status set_cols = Inr ?db'"
      by (simp add: Let_def)
    moreover have "ledger_changes_initial ?db' tid statements = 0"
      by (rule Cons.IH [OF rest _ s']) simp
    ultimately show ?thesis by (simp add: st)
  next
    case False
    with u have "update_transactions_initial db tid of_status set_cols = Inl foreign_key_violation"
      by (simp add: Let_def)
    moreover have "ledger_changes_initial db tid statements = 0"
      by (rule Cons.IH [OF rest Cons.prems(2,3)])
    ultimately show ?thesis by (simp add: st)
  qed
qed

lemma ledger_changes_initial_once:
  assumes "list_all (\<lambda>(of_status, set_cols). completed_is_final set_cols) statements"
  shows "ledger_changes_initial db tid statements \<le> 1"
  using assms
proof (induction statements arbitrary: db)
  case Nil
  then show ?case by simp
next
  case (Cons st statements)
  obtain of_status set_cols where st: "st = (of_status, set_cols)" by (cases st)
  with Cons.prems have
    rest: "list_all (\<lambda>(of_status, set_cols). completed_is_final set_cols) statements" by simp
  show ?case
  proof (cases "update_transactions_initial db tid of_status set_cols")
    case (Inl e)
    with Cons.IH [OF rest, of db] show ?thesis by (simp add: st)
  next
    case (Inr db')
    show ?thesis
    proof (cases "public_users db' = public_users db")
      case True
      with Inr Cons.IH [OF rest, of db'] show ?thesis by (simp add: st)
    next
      case False
      from update_initial_users_changed [OF Inr False] obtain r
        where "public_transactions db' tid = Some r" "status r = Completed" by blast
      from ledger_changes_initial_completed [OF rest this]
      show ?thesis using Inr False by (simp add: st)
    qed
  qed
qed

text \<open>
  C2 (idempotence). An update of a transaction row whose stored status is
  \<^verbatim>\<open>completed\<close> settles nothing: it leaves the \<^verbatim>\<open>users\<close> table as it was, whatever
  the update assigns, since both trigger functions compare \<^verbatim>\<open>OLD.status\<close> with
  \<^verbatim>\<open>completed\<close> and return at once. So a completion request that succeeded, made
  again, changes nothing at all; and of any number of statements on one record, none
  of which takes the record out of \<^verbatim>\<open>completed\<close>, at most one changes the \<^verbatim>\<open>users\<close>
  table. This holds for the consolidated reset script and for
  \<^verbatim>\<open>20250101000000_initial_schema.sql\<close>.
\<close>

theorem settlement_at_most_once:
  "(public_transactions db tid = Some OLD \<and> status OLD = Completed \<longrightarrow>
      (\<forall>db'. update_transactions_reset now db tid set_cols = Inr db' \<longrightarrow>
             public_users db' = public_users db)
    \<and> (\<forall>db'. update_transactions_initial db tid of_status set_cols = Inr db' \<longrightarrow>
             public_users db' = public_users db)
    \<and> handle_seller_on_transaction_complete_reset OLD NEW now users = Inr users
    \<and> handle_seller_on_transaction_complete_initial TG_OP OLD NEW users = Inr users)
   \<and> (update_transactions_reset now db tid (\<lambda>r. r\<lparr>status := Completed\<rparr>) = Inr db1 \<longrightarrow>
        update_transactions_reset now' db1 tid (\<lambda>r. r\<lparr>status := Completed\<rparr>) = Inr db1)
   \<and> (update_transactions_initial db tid True (\<lambda>r. r\<lparr>status := Completed\<rparr>) = Inr db1' \<longrightarrow>
        update_transactions_initial db1' tid True (\<lambda>r. r\<lparr>status := Completed\<rparr>) = Inr db1')
   \<and> (list_all (\<lambda>(now, set_cols). completed_is_final set_cols) statements \<longrightarrow>
        ledger_changes_reset db tid statements \<le> 1)
   \<and> (list_all (\<lambda>(of_status, set_cols). completed_is_final set_cols) statements' \<longrightarrow>
        ledger_changes_initial db tid statements' \<le> 1)"
proof -
  have "public_transactions db tid = Some OLD \<and> status OLD = Completed \<longrightarrow>
      (\<forall>db'. update_transactions_reset now db tid set_cols = Inr db' \<longrightarrow>
             public_users db' = public_users db)
    \<and> (\<forall>db'. update_transactions_initial db tid of_status set_cols = Inr db' \<longrightarrow>
             public_users db' = public_users db)
    \<and> handle_seller_on_transaction_complete_reset OLD NEW now users = Inr users
    \<and> handle_seller_on_transaction_complete_initial TG_OP OLD NEW users = Inr users"
    using update_reset_completed [of db tid OLD now set_cols]
      update_initial_completed [of db tid OLD of_status set_cols]
      reset_guard [of OLD NEW now users] initial_guard [of OLD TG_OP NEW users]
    by (auto simp: Let_def split: if_splits)
  then show ?thesis
    using second_request_reset [of now db tid db1 now'] second_request_initial [of db tid db1']
      ledger_changes_reset_once [of statements db tid]
      ledger_changes_initial_once [of statements' db tid]
    by blast
qed

theorem settlement_at_most_once_witness:
  "(\<exists>db1. update_transactions_reset 5
            \<lparr>public_users =
               [1 \<mapsto> \<lparr>balance_xs = 20000, balance_bonus = 0, debt_xs = 0, referred_by = None,
                       referral_bonus_paid = False, updated_at = 0\<rparr>,
                2 \<mapsto> \<lparr>balance_xs = 1000, balance_bonus = 0, debt_xs = 4000, referred_by = None,
                       referral_bonus_paid = False, updated_at = 0\<rparr>],
             public_transactions =
               [9 \<mapsto> \<lparr>buyer_id = 1, seller_id = 2, amount = 10000, status = Pending,
                       completed_at = None\<rparr>],
             public_system_settings = Map.empty\<rparr>
            9 (\<lambda>r. r\<lparr>status := Completed\<rparr>) = Inr db1
      \<and> update_transactions_reset 6 db1 9 (\<lambda>r. r\<lparr>status := Completed\<rparr>) = Inr db1
      \<and> map_option balance_xs (public_users db1 2) = Some 7000
      \<and> map_option debt_xs (public_users db1 2) = Some 0)
   \<and> ledger_changes_reset
            \<lparr>public_users =
               [1 \<mapsto> \<lparr>balance_xs = 20000, balance_bonus = 0, debt_xs = 0, referred_by = None,
                       referral_bonus_paid = False, updated_at = 0\<rparr>,
                2 \<mapsto> \<lparr>balance_xs = 1000, balance_bonus = 0, debt_xs = 4000, referred_by = None,
                       referral_bonus_paid = False, updated_at = 0\<rparr>],
             public_transactions =
               [9 \<mapsto> \<lparr>buyer_id = 1, seller_id = 2, amount = 10000, status = Pending,
                       completed_at = None\<rparr>],
             public_system_settings = Map.empty\<rparr>
            9 [(5, \<lambda>r. r\<lparr>status := Completed\<rparr>), (6, \<lambda>r. r\<lparr>status := Completed\<rparr>),
               (7, \<lambda>r. r\<lparr>completed_at := Some 7\<rparr>)] = 1"
proof -
  let ?db0 = "\<lparr>public_users =
               [1 \<mapsto> \<lparr>balance_xs = 20000, balance_bonus = 0, debt_xs = 0, referred_by = None,
                       referral_bonus_paid = False, updated_at = 0\<rparr>,
                2 \<mapsto> \<lparr>balance_xs = 1000, balance_bonus = 0, debt_xs = 4000, referred_by = None,
                       referral_bonus_paid = False, updated_at = 0\<rparr>],
             public_transactions =
               [9 \<mapsto> \<lparr>buyer_id = 1, seller_id = 2, amount = 10000, status = Pending,
                       completed_at = None\<rparr>],
             public_system_settings = Map.empty\<rparr>"
  let ?db1 = "\<lparr>public_users =
               [1 \<mapsto> \<lparr>balance_xs = 20000, balance_bonus = 0, debt_xs = 0, referred_by = None,
                       referral_bonus_paid = False, updated_at = 0\<rparr>,
                2 \<mapsto> \<lparr>balance_xs = 7000, balance_bonus = 0, debt_xs = 0, referred_by = None,
                       referral_bonus_paid = False, updated_at = 5\<rparr>],
             public_transactions =
               [9 \<mapsto> \<lparr>buyer_id = 1, seller_id = 2, amount = 10000, status = Completed,
                       completed_at = None\<rparr>],
             public_system_settings = Map.empty\<rparr>"
  let ?sts = "[(5, \<lambda>r. r\<lparr>status := Completed\<rparr>), (6, \<lambda>r. r\<lparr>status := Completed\<rparr>),
               (7, \<lambda>r. r\<lparr>completed_at := Some 7\<rparr>)]"
  note t = settlement_at_most_once [where db = ?db0 and tid = 9 and now = 5
      and ?db1.0 = ?db1 and now' = 6 and statements = ?sts]
  have first: "update_transactions_reset 5 ?db0 9 (\<lambda>r. r\<lparr>status := Completed\<rparr>) = Inr ?db1"
    by (simp add: update_transactions_reset_def parties_exist_def and_then_def
        handle_seller_on_transaction_complete_reset_def update_users_def users_row_fits_def
        numeric_fits_def)
  with t have "update_transactions_reset 6 ?db1 9 (\<lambda>r. r\<lparr>status := Completed\<rparr>) = Inr ?db1"
    by blast
  with first have part1: "\<exists>db1. update_transactions_reset 5 ?db0 9 (\<lambda>r. r\<lparr>status := Completed\<rparr>) = Inr db1
      \<and> update_transactions_reset 6 db1 9 (\<lambda>r. r\<lparr>status := Completed\<rparr>) = Inr db1
      \<and> map_option balance_xs (public_users db1 2) = Some 7000
      \<and> map_option debt_xs (public_users db1 2) = Some 0"
    by (intro exI [of _ ?db1]) simp
  have fin: "list_all (\<lambda>(now, set_cols). completed_is_final set_cols) ?sts"
    by (simp add: completed_is_final_def)
  with t have le: "ledger_changes_reset ?db0 9 ?sts \<le> 1" by blast
  have ne: "public_users ?db1 \<noteq> public_users ?db0"
    by (auto dest: fun_cong [where x = 2])
  have ge: "1 \<le> ledger_changes_reset ?db0 9 ?sts"
    using ne
    by (simp add: update_transactions_reset_def parties_exist_def and_then_def
        handle_seller_on_transaction_complete_reset_def update_users_def users_row_fits_def
        numeric_fits_def)
  from le ge have "ledger_changes_reset ?db0 9 ?sts = 1" by simp
  with part1 show ?thesis by blast
qed

subsection \<open>What settlement touches\<close>

lemma update_users_result:
  "update_users p users uid f = Inr users' \<Longrightarrow>
   users' = (\<lambda>x. if x = uid then map_option f (users x) else users x)"
  by (auto simp: update_users_def split: option.splits if_splits)

lemma frame_repayment:
  assumes "handle_debt_repayment OLD NEW users = Inr users'"
  shows "(uid \<noteq> seller_id NEW \<longrightarrow> users' uid = users uid)
       \<and> map_option balance_bonus (users' uid) = map_option balance_bonus (users uid)
       \<and> map_option referred_by (users' uid) = map_option referred_by (users uid)
       \<and> map_option referral_bonus_paid (users' uid) = map_option referral_bonus_paid (users uid)
       \<and> map_option updated_at (users' uid) = map_option updated_at (users uid)"
  using assms
  by (auto simp: handle_debt_repayment_def Let_def option.map_comp comp_def
      dest!: update_users_result split: if_splits option.splits)

lemma frame_reset:
  assumes "handle_seller_on_transaction_complete_reset OLD NEW now users = Inr users'"
  shows "(uid \<noteq> seller_id NEW \<longrightarrow> users' uid = users uid)
       \<and> map_option balance_bonus (users' uid) = map_option balance_bonus (users uid)
       \<and> map_option referred_by (users' uid) = map_option referred_by (users uid)
       \<and> map_option referral_bonus_paid (users' uid) = map_option referral_bonus_paid (users uid)"
  using assms
  by (auto simp: handle_seller_on_transaction_complete_reset_def Let_def option.map_comp comp_def
      dest!: update_users_result split: if_splits option.splits)

lemma frame_initial:
  assumes "handle_seller_on_transaction_complete_initial TG_OP OLD NEW users = Inr users'"
  shows "(uid \<noteq> seller_id NEW \<and> uid \<noteq> buyer_id NEW \<longrightarrow> users' uid = users uid)
       \<and> map_option balance_bonus (users' uid) = map_option balance_bonus (users uid)
       \<and> map_option referred_by (users' uid) = map_option referred_by (users uid)
       \<and> map_option referral_bonus_paid (users' uid) = map_option referral_bonus_paid (users uid)
       \<and> map_option updated_at (users' uid) = map_option updated_at (users uid)"
  using assms
  by (auto simp: handle_seller_on_transaction_complete_initial_def Let_def and_then_def
       option.map_comp comp_def
      dest!: update_users_result split: if_splits option.splits sum.splits)

lemma buyer_initial:
  assumes "handle_seller_on_transaction_complete_initial TG_UPDATE OLD NEW users = Inr users'"
    "status NEW = Completed" "status OLD \<noteq> Completed" "buyer_id NEW \<noteq> seller_id NEW"
  shows "users' (buyer_id NEW) =
           map_option (\<lambda>r. r\<lparr>balance_xs := balance_xs r - amount NEW\<rparr>) (users (buyer_id NEW))"
  using assms
  by (auto simp: handle_seller_on_transaction_complete_initial_def Let_def and_then_def
      dest!: update_users_result split: if_splits option.splits sum.splits)

lemma frame_amortize:
  assumes "amortize_loan_on_sale OLD NEW users = Inr users'"
  shows "(uid \<noteq> seller_id NEW \<and> uid \<noteq> buyer_id NEW \<longrightarrow> users' uid = users uid)
       \<and> map_option balance_bonus (users' uid) = map_option balance_bonus (users uid)
       \<and> map_option referred_by (users' uid) = map_option referred_by (users uid)
       \<and> map_option referral_bonus_paid (users' uid) = map_option referral_bonus_paid (users uid)
       \<and> map_option updated_at (users' uid) = map_option updated_at (users uid)"
  using assms
  by (auto simp: amortize_loan_on_sale_def Let_def and_then_def option.map_comp comp_def
      dest!: update_users_result split: if_splits option.splits sum.splits)

lemma buyer_amortize:
  assumes "amortize_loan_on_sale OLD NEW users = Inr users'"
    "status NEW = Completed" "status OLD \<noteq> Completed" "buyer_id NEW \<noteq> seller_id NEW"
  shows "users' (buyer_id NEW) =
           map_option (\<lambda>r. r\<lparr>balance_xs := balance_xs r - amount NEW\<rparr>) (users (buyer_id NEW))"
  using assms
  by (auto simp: amortize_loan_on_sale_def Let_def and_then_def
      dest!: update_users_result split: if_splits option.splits sum.splits)

lemma frame_before:
  assumes "handle_seller_on_transaction_complete_before TG_OP OLD' NEW now users = Inr (users', NEW')"
  shows "(uid \<noteq> seller_id NEW \<longrightarrow> users' uid = users uid)
       \<and> map_option balance_bonus (users' uid) = map_option balance_bonus (users uid)
       \<and> map_option referred_by (users' uid) = map_option referred_by (users uid)
       \<and> map_option referral_bonus_paid (users' uid) = map_option referral_bonus_paid (users uid)"
  using assms
  by (auto simp: handle_seller_on_transaction_complete_before_def Let_def and_then_def
        update_updated_at_column_def option.map_comp comp_def
      dest!: update_users_result split: if_splits option.splits sum.splits)

lemma frame_process:
  assumes "process_transaction_amortization OLD NEW now users = Inr users'"
  shows "(uid \<noteq> seller_id NEW \<longrightarrow> users' uid = users uid)
       \<and> map_option balance_bonus (users' uid) = map_option balance_bonus (users uid)
       \<and> map_option referred_by (users' uid) = map_option referred_by (users uid)
       \<and> map_option referral_bonus_paid (users' uid) = map_option referral_bonus_paid (users uid)"
  using assms
  by (auto simp: process_transaction_amortization_def Let_def
        update_updated_at_column_platform_def option.map_comp comp_def
      dest!: update_users_result split: if_splits option.splits)

lemma frame_full:
  assumes "handle_seller_on_transaction_complete_full TG_OP OLD NEW users = Inr users'"
  shows "(uid \<noteq> seller_id NEW \<longrightarrow> users' uid = users uid)
       \<and> map_option balance_bonus (users' uid) = map_option balance_bonus (users uid)
       \<and> map_option referred_by (users' uid) = map_option referred_by (users uid)
       \<and> map_option referral_bonus_paid (users' uid) = map_option referral_bonus_paid (users uid)"
  using assms
  by (auto simp: handle_seller_on_transaction_complete_full_def Let_def and_then_def
        option.map_comp comp_def
      dest!: update_users_result split: if_splits option.splits sum.splits)

lemma frame_consolidated:
  assumes "handle_seller_on_transaction_complete_consolidated TG_OP OLD NEW users = Inr users'"
  shows "(uid \<noteq> seller_id NEW \<longrightarrow> users' uid = users uid)
       \<and> map_option balance_bonus (users' uid) = map_option balance_bonus (users uid)
       \<and> map_option referred_by (users' uid) = map_option referred_by (users uid)
       \<and> map_option referral_bonus_paid (users' uid) = map_option referral_bonus_paid (users uid)"
  using assms
  by (auto simp: handle_seller_on_transaction_complete_consolidated_def Let_def and_then_def
        option.map_comp comp_def
      dest!: update_users_result split: if_splits option.splits sum.splits)

text \<open>
  C3 (what settlement touches), as amended. No version of the settlement trigger
  changes a \<^verbatim>\<open>balance_bonus\<close> (or \<^verbatim>\<open>referred_by\<close>, \<^verbatim>\<open>referral_bonus_paid\<close>), of any user.
  \<^verbatim>\<open>handle_debt_repayment\<close> and the triggers of the consolidated reset script, of the
  version 2.0 script, of the platform schema script, of the full reset script and of
  the consolidated migration script change no row but the seller's.
  \<^verbatim>\<open>handle_seller_on_transaction_complete\<close> of \<^verbatim>\<open>20250101000000_initial_schema.sql\<close>
  and \<^verbatim>\<open>amortize_loan_on_sale\<close> change no row but the seller's and the buyer's, and
  when they settle a transaction between two different users they take the amount
  off the buyer's \<^verbatim>\<open>balance_xs\<close>.
\<close>

theorem settlement_frame:
  "(\<forall>users'. handle_debt_repayment OLD NEW users = Inr users' \<longrightarrow>
      (\<forall>uid. (uid \<noteq> seller_id NEW \<longrightarrow> users' uid = users uid)
         \<and> map_option balance_bonus (users' uid) = map_option balance_bonus (users uid)
         \<and> map_option referred_by (users' uid) = map_option referred_by (users uid)
         \<and> map_option referral_bonus_paid (users' uid) = map_option referral_bonus_paid (users uid)))
 \<and> (\<forall>users'. handle_seller_on_transaction_complete_reset OLD NEW now users = Inr users' \<longrightarrow>
      (\<forall>uid. (uid \<noteq> seller_id NEW \<longrightarrow> users' uid = users uid)
         \<and> map_option balance_bonus (users' uid) = map_option balance_bonus (users uid)
         \<and> map_option referred_by (users' uid) = map_option referred_by (users uid)
         \<and> map_option referral_bonus_paid (users' uid) = map_option referral_bonus_paid (users uid)))
 \<and> (\<forall>users' NEW'. handle_seller_on_transaction_complete_before TG_OP OLD' NEW now users
        = Inr (users', NEW') \<longrightarrow>
      (\<forall>uid. (uid \<noteq> seller_id NEW \<longrightarrow> users' uid = users uid)
         \<and> map_option balance_bonus (users' uid) = map_option balance_bonus (users uid)
         \<and> map_option referred_by (users' uid) = map_option referred_by (users uid)
         \<and> map_option referral_bonus_paid (users' uid) = map_option referral_bonus_paid (users uid)))
 \<and> (\<forall>users'. process_transaction_amortization OLD NEW now users = Inr users' \<longrightarrow>
      (\<forall>uid. (uid \<noteq> seller_id NEW \<longrightarrow> users' uid = users uid)
         \<and> map_option balance_bonus (users' uid) = map_option balance_bonus (users uid)
         \<and> map_option referred_by (users' uid) = map_option referred_by (users uid)
         \<and> map_option referral_bonus_paid (users' uid) = map_option referral_bonus_paid (users uid)))
 \<and> (\<forall>users'. handle_seller_on_transaction_complete_initial TG_UPDATE OLD NEW users = Inr users' \<longrightarrow>
      (\<forall>uid. (uid \<noteq> seller_id NEW \<and> uid \<noteq> buyer_id NEW \<longrightarrow> users' uid = users uid)
         \<and> map_option balance_bonus (users' uid) = map_option balance_bonus (users uid)
         \<and> map_option referred_by (users' uid) = map_option referred_by (users uid)
         \<and> map_option referral_bonus_paid (users' uid) = map_option referral_bonus_paid (users uid))
      \<and> (status NEW = Completed \<and> status OLD \<noteq> Completed \<and> buyer_id NEW \<noteq> seller_id NEW \<longrightarrow>
           users' (buyer_id NEW) =
             map_option (\<lambda>r. r\<lparr>balance_xs := balance_xs r - amount NEW\<rparr>) (users (buyer_id NEW))))
 \<and> (\<forall>users'. amortize_loan_on_sale OLD NEW users = Inr users' \<longrightarrow>
      (\<forall>uid. (uid \<noteq> seller_id NEW \<and> uid \<noteq> buyer_id NEW \<longrightarrow> users' uid = users uid)
         \<and> map_option balance_bonus (users' uid) = map_option balance_bonus (users uid)
         \<and> map_option referred_by (users' uid) = map_option referred_by (users uid)
         \<and> map_option referral_bonus_paid (users' uid) = map_option referral_bonus_paid (users uid))
      \<and> (status NEW = Completed \<and> status OLD \<noteq> Completed \<and> buyer_id NEW \<noteq> seller_id NEW \<longrightarrow>
           users' (buyer_id NEW) =
             map_option (\<lambda>r. r\<lparr>balance_xs := balance_xs r - amount NEW\<rparr>) (users (buyer_id NEW))))
 \<and> (\<forall>users'. handle_seller_on_transaction_complete_full TG_OP OLD NEW users = Inr users' \<longrightarrow>
      (\<forall>uid. (uid \<noteq> seller_id NEW \<longrightarrow> users' uid = users uid)
         \<and> map_option balance_bonus (users' uid) = map_option balance_bonus (users uid)
         \<and> map_option referred_by (users' uid) = map_option referred_by (users uid)
         \<and> map_option referral_bonus_paid (users' uid) = map_option referral_bonus_paid (users uid)))
 \<and> (\<forall>users'. handle_seller_on_transaction_complete_consolidated TG_OP OLD NEW users = Inr users' \<longrightarrow>
      (\<forall>uid. (uid \<noteq> seller_id NEW \<longrightarrow> users' uid = users uid)
         \<and> map_option balance_bonus (users' uid) = map_option balance_bonus (users uid)
         \<and> map_option referred_by (users' uid) = map_option referred_by (users uid)
         \<and> map_option referral_bonus_paid (users' uid) = map_option referral_bonus_paid (users uid)))"
proof (intro conjI allI impI)
  fix users' uid
  assume "handle_debt_repayment OLD NEW users = Inr users'"
  note f = frame_repayment [OF this, of uid]
  { assume "uid \<noteq> seller_id NEW" with f show "users' uid = users uid" by simp }
  from f show "map_option balance_bonus (users' uid) = map_option balance_bonus (users uid)"
    and "map_option referred_by (users' uid) = map_option referred_by (users uid)"
    and "map_option referral_bonus_paid (users' uid) = map_option referral_bonus_paid (users uid)"
    by simp_all
next
  fix users' uid
  assume "handle_seller_on_transaction_complete_reset OLD NEW now users = Inr users'"
  note f = frame_reset [OF this, of uid]
  { assume "uid \<noteq> seller_id NEW" with f show "users' uid = users uid" by simp }
  from f show "map_option balance_bonus (users' uid) = map_option balance_bonus (users uid)"
    and "map_option referred_by (users' uid) = map_option referred_by (users uid)"
    and "map_option referral_bonus_paid (users' uid) = map_option referral_bonus_paid (users uid)"
    by simp_all
next
  fix users' NEW' uid
  assume "handle_seller_on_transaction_complete_before TG_OP OLD' NEW now users = Inr (users', NEW')"
  note f = frame_before [OF this, of uid]
  { assume "uid \<noteq> seller_id NEW" with f show "users' uid = users uid" by simp }
  from f show "map_option balance_bonus (users' uid) = map_option balance_bonus (users uid)"
    and "map_option referred_by (users' uid) = map_option referred_by (users uid)"
    and "map_option referral_bonus_paid (users' uid) = map_option referral_bonus_paid (users uid)"
    by simp_all
next
  fix users' uid
  assume "process_transaction_amortization OLD NEW now users = Inr users'"
  note f = frame_process [OF this, of uid]
  { assume "uid \<noteq> seller_id NEW" with f show "users' uid = users uid" by simp }
  from f show "map_option balance_bonus (users' uid) = map_option balance_bonus (users uid)"
    and "map_option referred_by (users' uid) = map_option referred_by (users uid)"
    and "map_option referral_bonus_paid (users' uid) = map_option referral_bonus_paid (users uid)"
    by simp_all
next
  fix users' uid
  assume "handle_seller_on_transaction_complete_initial TG_UPDATE OLD NEW users = Inr users'"
  note f = frame_initial [OF this, of uid]
  { assume "uid \<noteq> seller_id NEW \<and> uid \<noteq> buyer_id NEW" with f show "users' uid = users uid" by simp }
  from f show "map_option balance_bonus (users' uid) = map_option balance_bonus (users uid)"
    and "map_option referred_by (users' uid) = map_option referred_by (users uid)"
    and "map_option referral_bonus_paid (users' uid) = map_option referral_bonus_paid (users uid)"
    by simp_all
next
  fix users'
  assume "handle_seller_on_transaction_complete_initial TG_UPDATE OLD NEW users = Inr users'"
    and "status NEW = Completed \<and> status OLD \<noteq> Completed \<and> buyer_id NEW \<noteq> seller_id NEW"
  then show "users' (buyer_id NEW) =
      map_option (\<lambda>r. r\<lparr>balance_xs := balance_xs r - amount NEW\<rparr>) (users (buyer_id NEW))"
    using buyer_initial [of OLD NEW users users'] by simp
next
  fix users' uid
  assume "amortize_loan_on_sale OLD NEW users = Inr users'"
  note f = frame_amortize [OF this, of uid]
  { assume "uid \<noteq> seller_id NEW \<and> uid \<noteq> buyer_id NEW" with f show "users' uid = users uid" by simp }
  from f show "map_option balance_bonus (users' uid) = map_option balance_bonus (users uid)"
    and "map_option referred_by (users' uid) = map_option referred_by (users uid)"
    and "map_option referral_bonus_paid (users' uid) = map_option referral_bonus_paid (users uid)"
    by simp_all
next
  fix users'
  assume "amortize_loan_on_sale OLD NEW users = Inr users'"
    and "status NEW = Completed \<and> status OLD \<noteq> Completed \<and> buyer_id NEW \<noteq> seller_id NEW"
  then show "users' (buyer_id NEW) =
      map_option (\<lambda>r. r\<lparr>balance_xs := balance_xs r - amount NEW\<rparr>) (users (buyer_id NEW))"
    using buyer_amortize [of OLD NEW users users'] by simp
next
  fix users' uid
  assume "handle_seller_on_transaction_complete_full TG_OP OLD NEW users = Inr users'"
  note f = frame_full [OF this, of uid]
  { assume "uid \<noteq> seller_id NEW" with f show "users' uid = users uid" by simp }
  from f show "map_option balance_bonus (users' uid) = map_option balance_bonus (users uid)"
    and "map_option referred_by (users' uid) = map_option referred_by (users uid)"
    and "map_option referral_bonus_paid (users' uid) = map_option referral_bonus_paid (users uid)"
    by simp_all
next
  fix users' uid
  assume "handle_seller_on_transaction_complete_consolidated TG_OP OLD NEW users = Inr users'"
  note f = frame_consolidated [OF this, of uid]
  { assume "uid \<noteq> seller_id NEW" with f show "users' uid = users uid" by simp }
  from f show "map_option balance_bonus (users' uid) = map_option balance_bonus (users uid)"
    and "map_option referred_by (users' uid) = map_option referred_by (users uid)"
    and "map_option referral_bonus_paid (users' uid) = map_option referral_bonus_paid (users uid)"
    by simp_all
qed

theorem settlement_frame_witness:
  "\<exists>users' users'' users3 users4.
     handle_debt_repayment
       \<lparr>buyer_id = 1, seller_id = 2, amount = 10000, status = Pending, completed_at = None\<rparr>
       \<lparr>buyer_id = 1, seller_id = 2, amount = 10000, status = Completed, completed_at = None\<rparr>
       [1 \<mapsto> \<lparr>balance_xs = 20000, balance_bonus = 500, debt_xs = 0, referred_by = None,
               referral_bonus_paid = False, updated_at = 0\<rparr>,
        2 \<mapsto> \<lparr>balance_xs = 1000, balance_bonus = 250, debt_xs = 4000, referred_by = Some 1,
               referral_bonus_paid = True, updated_at = 0\<rparr>] = Inr users'
   \<and> users' 1 = Some \<lparr>balance_xs = 20000, balance_bonus = 500, debt_xs = 0, referred_by = None,
               referral_bonus_paid = False, updated_at = 0\<rparr>
   \<and> map_option balance_bonus (users' 2) = Some 250
   \<and> handle_seller_on_transaction_complete_initial TG_UPDATE
       \<lparr>buyer_id = 1, seller_id = 2, amount = 10000, status = Pending, completed_at = None\<rparr>
       \<lparr>buyer_id = 1, seller_id = 2, amount = 10000, status = Completed, completed_at = None\<rparr>
       [1 \<mapsto> \<lparr>balance_xs = 20000, balance_bonus = 500, debt_xs = 0, referred_by = None,
               referral_bonus_paid = False, updated_at = 0\<rparr>,
        2 \<mapsto> \<lparr>balance_xs = 1000, balance_bonus = 250, debt_xs = 4000, referred_by = Some 1,
               referral_bonus_paid = True, updated_at = 0\<rparr>] = Inr users''
   \<and> users'' 1 = Some \<lparr>balance_xs = 10000, balance_bonus = 500, debt_xs = 0, referred_by = None,
               referral_bonus_paid = False, updated_at = 0\<rparr>
   \<and> map_option balance_bonus (users'' 2) = Some 250
   \<and> handle_seller_on_transaction_complete_full TG_UPDATE
       \<lparr>buyer_id = 1, seller_id = 2, amount = 10000, status = Pending, completed_at = None\<rparr>
       \<lparr>buyer_id = 1, seller_id = 2, amount = 10000, status = Completed, completed_at = None\<rparr>
       [1 \<mapsto> \<lparr>balance_xs = 20000, balance_bonus = 500, debt_xs = 0, referred_by = None,
               referral_bonus_paid = False, updated_at = 0\<rparr>,
        2 \<mapsto> \<lparr>balance_xs = 1000, balance_bonus = 250, debt_xs = 4000, referred_by = Some 1,
               referral_bonus_paid = True, updated_at = 0\<rparr>] = Inr users3
   \<and> users3 1 = Some \<lparr>balance_xs = 20000, balance_bonus = 500, debt_xs = 0, referred_by = None,
               referral_bonus_paid = False, updated_at = 0\<rparr>
   \<and> map_option balance_bonus (users3 2) = Some 250
   \<and> map_option balance_xs (users3 2) = Some 7000
   \<and> handle_seller_on_transaction_complete_consolidated TG_UPDATE
       \<lparr>buyer_id = 1, seller_id = 2, amount = 10000, status = Pending, completed_at = None\<rparr>
       \<lparr>buyer_id = 1, seller_id = 2, amount = 10000, status = Completed, completed_at = None\<rparr>
       [1 \<mapsto> \<lparr>balance_xs = 20000, balance_bonus = 500, debt_xs = 0, referred_by = None,
               referral_bonus_paid = False, updated_at = 0\<rparr>,
        2 \<mapsto> \<lparr>balance_xs = 1000, balance_bonus = 250, debt_xs = 4000, referred_by = Some 1,
               referral_bonus_paid = True, updated_at = 0\<rparr>] = Inr users4
   \<and> users4 1 = Some \<lparr>balance_xs = 20000, balance_bonus = 500, debt_xs = 0, referred_by = None,
               referral_bonus_paid = False, updated_at = 0\<rparr>
   \<and> map_option balance_bonus (users4 2) = Some 250
   \<and> map_option balance_xs (users4 2) = Some 7000"
proof -
  let ?OLD = "\<lparr>buyer_id = 1, seller_id = 2, amount = 10000, status = Pending, completed_at = None\<rparr>"
  let ?NEW = "\<lparr>buyer_id = 1, seller_id = 2, amount = 10000, status = Completed, completed_at = None\<rparr>"
  let ?users = "[1 \<mapsto> \<lparr>balance_xs = 20000, balance_bonus = 500, debt_xs = 0, referred_by = None,
               referral_bonus_paid = False, updated_at = 0\<rparr>,
        2 \<mapsto> \<lparr>balance_xs = 1000, balance_bonus = 250, debt_xs = 4000, referred_by = Some 1,
               referral_bonus_paid = True, updated_at = 0\<rparr>]"
  obtain users' where r1: "handle_debt_repayment ?OLD ?NEW ?users = Inr users'"
    by (simp add: handle_debt_repayment_def update_users_def users_row_fits_def numeric_fits_def)
  obtain users'' where r2:
    "handle_seller_on_transaction_complete_initial TG_UPDATE ?OLD ?NEW ?users = Inr users''"
    by (simp add: handle_seller_on_transaction_complete_initial_def and_then_def update_users_def
        users_row_fits_def numeric_fits_def)
  obtain users3 where r3:
    "handle_seller_on_transaction_complete_full TG_UPDATE ?OLD ?NEW ?users = Inr users3"
    and x3: "map_option balance_xs (users3 2) = Some 7000"
    by (simp add: handle_seller_on_transaction_complete_full_def and_then_def update_users_def
        users_row_fits_def numeric_fits_def)
  obtain users4 where r4:
    "handle_seller_on_transaction_complete_consolidated TG_UPDATE ?OLD ?NEW ?users = Inr users4"
    and x4: "map_option balance_xs (users4 2) = Some 7000"
    by (simp add: handle_seller_on_transaction_complete_consolidated_def and_then_def
        update_users_def users_row_fits_def numeric_fits_def)
  note fr = settlement_frame [of ?OLD ?NEW ?users 0 TG_UPDATE None]
  from fr r1 have a: "\<forall>uid. (uid \<noteq> seller_id ?NEW \<longrightarrow> users' uid = ?users uid)
         \<and> map_option balance_bonus (users' uid) = map_option balance_bonus (?users uid)
         \<and> map_option referred_by (users' uid) = map_option referred_by (?users uid)
         \<and> map_option referral_bonus_paid (users' uid) = map_option referral_bonus_paid (?users uid)"
    by blast
  from fr r2 have b: "\<forall>uid. (uid \<noteq> seller_id ?NEW \<and> uid \<noteq> buyer_id ?NEW \<longrightarrow> users'' uid = ?users uid)
         \<and> map_option balance_bonus (users'' uid) = map_option balance_bonus (?users uid)
         \<and> map_option referred_by (users'' uid) = map_option referred_by (?users uid)
         \<and> map_option referral_bonus_paid (users'' uid) = map_option referral_bonus_paid (?users uid)"
    and c: "status ?NEW = Completed \<and> status ?OLD \<noteq> Completed \<and> buyer_id ?NEW \<noteq> seller_id ?NEW \<longrightarrow>
           users'' (buyer_id ?NEW) =
             map_option (\<lambda>r. r\<lparr>balance_xs := balance_xs r - amount ?NEW\<rparr>) (?users (buyer_id ?NEW))"
    by blast+
  from fr r3 have d: "\<forall>uid. (uid \<noteq> seller_id ?NEW \<longrightarrow> users3 uid = ?users uid)
         \<and> map_option balance_bonus (users3 uid) = map_option balance_bonus (?users uid)
         \<and> map_option referred_by (users3 uid) = map_option referred_by (?users uid)
         \<and> map_option referral_bonus_paid (users3 uid) = map_option referral_bonus_paid (?users uid)"
    by blast
  from fr r4 have e: "\<forall>uid. (uid \<noteq> seller_id ?NEW \<longrightarrow> users4 uid = ?users uid)
         \<and> map_option balance_bonus (users4 uid) = map_option balance_bonus (?users uid)
         \<and> map_option referred_by (users4 uid) = map_option referred_by (?users uid)
         \<and> map_option referral_bonus_paid (users4 uid) = map_option referral_bonus_paid (?users uid)"
    by blast
  from a [THEN spec, of 1] a [THEN spec, of 2] b [THEN spec, of 2] c r1 r2
  have p1: "users' 1 = Some \<lparr>balance_xs = 20000, balance_bonus = 500, debt_xs = 0, referred_by = None,
               referral_bonus_paid = False, updated_at = 0\<rparr>
   \<and> map_option balance_bonus (users' 2) = Some 250
   \<and> users'' 1 = Some \<lparr>balance_xs = 10000, balance_bonus = 500, debt_xs = 0, referred_by = None,
               referral_bonus_paid = False, updated_at = 0\<rparr>
   \<and> map_option balance_bonus (users'' 2) = Some 250"
    by simp
  from d [THEN spec, of 1] d [THEN spec, of 2] e [THEN spec, of 1] e [THEN spec, of 2]
  have p2: "users3 1 = Some \<lparr>balance_xs = 20000, balance_bonus = 500, debt_xs = 0, referred_by = None,
               referral_bonus_paid = False, updated_at = 0\<rparr>
   \<and> map_option balance_bonus (users3 2) = Some 250
   \<and> users4 1 = Some \<lparr>balance_xs = 20000, balance_bonus = 500, debt_xs = 0, referred_by = None,
               referral_bonus_paid = False, updated_at = 0\<rparr>
   \<and> map_option balance_bonus (users4 2) = Some 250"
    by simp
  from p1 p2 r1 r2 r3 r4 x3 x4 show ?thesis
    by (intro exI [of _ users'] exI [of _ users''] exI [of _ users3] exI [of _ users4]) blast
qed

text \<open>
  The claim as it stands (the buyer is not debited at settlement) fails on the two
  versions it cites: buyer 1 pays 100.00 to seller 2 and ends with 100.00 less.
\<close>

theorem buyer_debited_counterexample:
  "handle_seller_on_transaction_complete_initial TG_UPDATE
       \<lparr>buyer_id = 1, seller_id = 2, amount = 10000, status = Pending, completed_at = None\<rparr>
       \<lparr>buyer_id = 1, seller_id = 2, amount = 10000, status = Completed, completed_at = None\<rparr>
       [1 \<mapsto> \<lparr>balance_xs = 20000, balance_bonus = 0, debt_xs = 0, referred_by = None,
               referral_bonus_paid = False, updated_at = 0\<rparr>,
        2 \<mapsto> \<lparr>balance_xs = 1000, balance_bonus = 0, debt_xs = 4000, referred_by = None,
               referral_bonus_paid = False, updated_at = 0\<rparr>]
   = Inr [1 \<mapsto> \<lparr>balance_xs = 10000, balance_bonus = 0, debt_xs = 0, referred_by = None,
               referral_bonus_paid = False, updated_at = 0\<rparr>,
          2 \<mapsto> \<lparr>balance_xs = 7000, balance_bonus = 0, debt_xs = 0, referred_by = None,
               referral_bonus_paid = False, updated_at = 0\<rparr>]
   \<and> amortize_loan_on_sale
       \<lparr>buyer_id = 1, seller_id = 2, amount = 10000, status = Pending, completed_at = None\<rparr>
       \<lparr>buyer_id = 1, seller_id = 2, amount = 10000, status = Completed, completed_at = None\<rparr>
       [1 \<mapsto> \<lparr>balance_xs = 20000, balance_bonus = 0, debt_xs = 0, referred_by = None,
               referral_bonus_paid = False, updated_at = 0\<rparr>,
        2 \<mapsto> \<lparr>balance_xs = 1000, balance_bonus = 0, debt_xs = 4000, referred_by = None,
               referral_bonus_paid = False, updated_at = 0\<rparr>]
   = Inr [1 \<mapsto> \<lparr>balance_xs = 10000, balance_bonus = 0, debt_xs = 0, referred_by = None,
               referral_bonus_paid = False, updated_at = 0\<rparr>,
          2 \<mapsto> \<lparr>balance_xs = 7000, balance_bonus = 0, debt_xs = 0, referred_by = None,
               referral_bonus_paid = False, updated_at = 0\<rparr>]"
  by (simp add: handle_seller_on_transaction_complete_initial_def amortize_loan_on_sale_def
      and_then_def update_users_def users_row_fits_def numeric_fits_def fun_upd_twist)

subsection \<open>Referral bonus\<close>

lemma grant_paid:
  "public_users db u = Some r \<Longrightarrow> referral_bonus_paid r \<Longrightarrow> grant_referral_bonus db u = Inr db"
  by (simp add: grant_referral_bonus_def)

lemma grant_no_referrer:
  "public_users db u = Some r \<Longrightarrow> referred_by r = None \<Longrightarrow> grant_referral_bonus db u = Inr db"
  by (simp add: grant_referral_bonus_def)

lemma notify_fixed:
  "rpc_grant_referral_bonus u db = db \<Longrightarrow> notify_user_approved n u db = db"
  by (induction n) simp_all

lemma grant_referrer:
  assumes u: "public_users db u = Some r" and np: "\<not> referral_bonus_paid r"
    and ref: "referred_by r = Some referrer" and ne: "referrer \<noteq> u"
    and rr: "public_users db referrer = Some rr"
    and cfg: "public_system_settings db ''referral_bonus'' = Some v"
      "v ''referrer'' = Some a" "v ''referee'' = Some b"
  shows "grant_referral_bonus db u =
     (if users_row_fits 10 (rr\<lparr>balance_bonus := balance_bonus rr + a\<rparr>)
        \<and> users_row_fits 10 (r\<lparr>balance_bonus := balance_bonus r + b\<rparr>)
      then Inr (db\<lparr>public_users := (public_users db)
                  (referrer \<mapsto> rr\<lparr>balance_bonus := balance_bonus rr + a\<rparr>,
                   u \<mapsto> r\<lparr>balance_bonus := balance_bonus r + b, referral_bonus_paid := True\<rparr>)\<rparr>)
      else Inl numeric_field_overflow)"
  using assms
  by (simp add: grant_referral_bonus_def add_balance_bonus_def update_users_def and_then_def
      users_row_fits_def)

text \<open>
  C4 (referral bonus, once), as amended. For a user whose \<^verbatim>\<open>referral_bonus_paid\<close> is false
  and whose \<^verbatim>\<open>referred_by\<close> is another, existing user, with both amounts configured:
  \<open>n \<ge> 1\<close> notifications in a row raise the referrer's \<^verbatim>\<open>balance_bonus\<close> by the referrer
  amount and the user's own by the referee amount, once, and set the flag; unless one
  of the two new balances overflows its column, and then nothing changes.
\<close>

theorem referral_bonus_once:
  assumes "public_users db u = Some r" and "\<not> referral_bonus_paid r"
    and "referred_by r = Some referrer" and "referrer \<noteq> u"
    and "public_users db referrer = Some rr"
    and "public_system_settings db ''referral_bonus'' = Some v"
    and "v ''referrer'' = Some a" and "v ''referee'' = Some b"
    and "1 \<le> n"
  shows "notify_user_approved n u db =
     (if users_row_fits 10 (rr\<lparr>balance_bonus := balance_bonus rr + a\<rparr>)
        \<and> users_row_fits 10 (r\<lparr>balance_bonus := balance_bonus r + b\<rparr>)
      then db\<lparr>public_users := (public_users db)
                  (referrer \<mapsto> rr\<lparr>balance_bonus := balance_bonus rr + a\<rparr>,
                   u \<mapsto> r\<lparr>balance_bonus := balance_bonus r + b, referral_bonus_paid := True\<rparr>)\<rparr>
      else db)"
proof -
  let ?db' = "db\<lparr>public_users := (public_users db)
                  (referrer \<mapsto> rr\<lparr>balance_bonus := balance_bonus rr + a\<rparr>,
                   u \<mapsto> r\<lparr>balance_bonus := balance_bonus r + b, referral_bonus_paid := True\<rparr>)\<rparr>"
  let ?fits = "users_row_fits 10 (rr\<lparr>balance_bonus := balance_bonus rr + a\<rparr>)
        \<and> users_row_fits 10 (r\<lparr>balance_bonus := balance_bonus r + b\<rparr>)"
  from \<open>1 \<le> n\<close> obtain m where n: "n = Suc m" by (cases n) simp_all
  have first: "rpc_grant_referral_bonus u db = (if ?fits then ?db' else db)"
    using grant_referrer [OF assms(1-8)] by (simp add: rpc_grant_referral_bonus_def)
  show ?thesis
  proof (cases ?fits)
    case True
    have "grant_referral_bonus ?db' u = Inr ?db'"
      by (rule grant_paid [where r = "r\<lparr>balance_bonus := balance_bonus r + b,
            referral_bonus_paid := True\<rparr>"]) simp_all
    then have "rpc_grant_referral_bonus u ?db' = ?db'"
      by (simp add: rpc_grant_referral_bonus_def)
    then have "notify_user_approved m u ?db' = ?db'" by (rule notify_fixed)
    with True first n show ?thesis by simp
  next
    case False
    with first have "rpc_grant_referral_bonus u db = db" by simp
    then have "notify_user_approved n u db = db" by (rule notify_fixed)
    then show ?thesis unfolding if_not_P [OF False] .
  qed
qed

theorem referral_bonus_once_witness:
  "notify_user_approved 3 2
     \<lparr>public_users =
        [1 \<mapsto> \<lparr>balance_xs = 0, balance_bonus = 100, debt_xs = 0, referred_by = None,
                referral_bonus_paid = False, updated_at = 0\<rparr>,
         2 \<mapsto> \<lparr>balance_xs = 0, balance_bonus = 0, debt_xs = 0, referred_by = Some 1,
                referral_bonus_paid = False, updated_at = 0\<rparr>],
      public_transactions = Map.empty,
      public_system_settings = [''referral_bonus'' \<mapsto> [''referrer'' \<mapsto> 500, ''referee'' \<mapsto> 250]]\<rparr>
   = \<lparr>public_users =
        [1 \<mapsto> \<lparr>balance_xs = 0, balance_bonus = 600, debt_xs = 0, referred_by = None,
                referral_bonus_paid = False, updated_at = 0\<rparr>,
         2 \<mapsto> \<lparr>balance_xs = 0, balance_bonus = 250, debt_xs = 0, referred_by = Some 1,
                referral_bonus_paid = True, updated_at = 0\<rparr>],
      public_transactions = Map.empty,
      public_system_settings = [''referral_bonus'' \<mapsto> [''referrer'' \<mapsto> 500, ''referee'' \<mapsto> 250]]\<rparr>"
  using referral_bonus_once
    [of "\<lparr>public_users =
        [1 \<mapsto> \<lparr>balance_xs = 0, balance_bonus = 100, debt_xs = 0, referred_by = None,
                referral_bonus_paid = False, updated_at = 0\<rparr>,
         2 \<mapsto> \<lparr>balance_xs = 0, balance_bonus = 0, debt_xs = 0, referred_by = Some 1,
                referral_bonus_paid = False, updated_at = 0\<rparr>],
      public_transactions = Map.empty,
      public_system_settings = [''referral_bonus'' \<mapsto> [''referrer'' \<mapsto> 500, ''referee'' \<mapsto> 250]]\<rparr>"
      2 "\<lparr>balance_xs = 0, balance_bonus = 0, debt_xs = 0, referred_by = Some 1,
                referral_bonus_paid = False, updated_at = 0\<rparr>"
      1 "\<lparr>balance_xs = 0, balance_bonus = 100, debt_xs = 0, referred_by = None,
                referral_bonus_paid = False, updated_at = 0\<rparr>"
      "[''referrer'' \<mapsto> 500, ''referee'' \<mapsto> 250]" 500 250 3]
  by (simp add: users_row_fits_def numeric_fits_def)

text \<open>
  A user referred by himself (the foreign key \<^verbatim>\<open>referred_by\<close> allows it) gets both
  amounts: 7.50 where the claim says 2.50.
\<close>

theorem self_referral_counterexample:
  "map_option balance_bonus
     (public_users
        (notify_user_approved 1 1
           \<lparr>public_users =
              [1 \<mapsto> \<lparr>balance_xs = 0, balance_bonus = 0, debt_xs = 0, referred_by = Some 1,
                      referral_bonus_paid = False, updated_at = 0\<rparr>],
            public_transactions = Map.empty,
            public_system_settings =
              [''referral_bonus'' \<mapsto> [''referrer'' \<mapsto> 500, ''referee'' \<mapsto> 250]]\<rparr>) 1)
   = Some 750"
  by (simp add: rpc_grant_referral_bonus_def grant_referral_bonus_def add_balance_bonus_def
      update_users_def and_then_def users_row_fits_def numeric_fits_def)

text \<open>
  C10 (no referrer). For a user whose \<^verbatim>\<open>referral_bonus_paid\<close> is false and whose
  \<^verbatim>\<open>referred_by\<close> is NULL the function returns with the database as it was: no balance
  is credited and the flag stays false, however often it is called.
\<close>

theorem no_referrer_no_effect:
  assumes "public_users db u = Some r" and "\<not> referral_bonus_paid r" and "referred_by r = None"
  shows "grant_referral_bonus db u = Inr db \<and> notify_user_approved n u db = db"
proof -
  have g: "grant_referral_bonus db u = Inr db"
    using assms by (simp add: grant_no_referrer)
  then have "rpc_grant_referral_bonus u db = db" by (simp add: rpc_grant_referral_bonus_def)
  then have "notify_user_approved n u db = db" by (rule notify_fixed)
  with g show ?thesis by simp
qed

theorem no_referrer_no_effect_witness:
  "grant_referral_bonus
     \<lparr>public_users =
        [2 \<mapsto> \<lparr>balance_xs = 0, balance_bonus = 0, debt_xs = 0, referred_by = None,
                referral_bonus_paid = False, updated_at = 0\<rparr>],
      public_transactions = Map.empty,
      public_system_settings = [''referral_bonus'' \<mapsto> [''referrer'' \<mapsto> 500, ''referee'' \<mapsto> 250]]\<rparr> 2
   = Inr \<lparr>public_users =
        [2 \<mapsto> \<lparr>balance_xs = 0, balance_bonus = 0, debt_xs = 0, referred_by = None,
                referral_bonus_paid = False, updated_at = 0\<rparr>],
      public_transactions = Map.empty,
      public_system_settings = [''referral_bonus'' \<mapsto> [''referrer'' \<mapsto> 500, ''referee'' \<mapsto> 250]]\<rparr>
   \<and> notify_user_approved 2 2
     \<lparr>public_users =
        [2 \<mapsto> \<lparr>balance_xs = 0, balance_bonus = 0, debt_xs = 0, referred_by = None,
                referral_bonus_paid = False, updated_at = 0\<rparr>],
      public_transactions = Map.empty,
      public_system_settings = [''referral_bonus'' \<mapsto> [''referrer'' \<mapsto> 500, ''referee'' \<mapsto> 250]]\<rparr>
   = \<lparr>public_users =
        [2 \<mapsto> \<lparr>balance_xs = 0, balance_bonus = 0, debt_xs = 0, referred_by = None,
                referral_bonus_paid = False, updated_at = 0\<rparr>],
      public_transactions = Map.empty,
      public_system_settings = [''referral_bonus'' \<mapsto> [''referrer'' \<mapsto> 500, ''referee'' \<mapsto> 250]]\<rparr>"
  using no_referrer_no_effect
    [of "\<lparr>public_users =
        [2 \<mapsto> \<lparr>balance_xs = 0, balance_bonus = 0, debt_xs = 0, referred_by = None,
                referral_bonus_paid = False, updated_at = 0\<rparr>],
      public_transactions = Map.empty,
      public_system_settings = [''referral_bonus'' \<mapsto> [''referrer'' \<mapsto> 500, ''referee'' \<mapsto> 250]]\<rparr>"
      2 "\<lparr>balance_xs = 0, balance_bonus = 0, debt_xs = 0, referred_by = None,
                referral_bonus_paid = False, updated_at = 0\<rparr>" 2]
  by simp

subsection \<open>Referral codes\<close>

lemma substr_0_7: "substr s 0 7 = take 6 s"
  by (simp add: substr_def)

lemma upper_char_digits:
  "upper_char CHR ''0'' = CHR ''0''" "upper_char CHR ''1'' = CHR ''1''"
  "upper_char CHR ''2'' = CHR ''2''" "upper_char CHR ''3'' = CHR ''3''"
  "upper_char CHR ''4'' = CHR ''4''" "upper_char CHR ''5'' = CHR ''5''"
  "upper_char CHR ''6'' = CHR ''6''" "upper_char CHR ''7'' = CHR ''7''"
  "upper_char CHR ''8'' = CHR ''8''" "upper_char CHR ''9'' = CHR ''9''"
  by code_simp+

lemma upper_char_letters:
  "upper_char CHR ''a'' = CHR ''A''" "upper_char CHR ''b'' = CHR ''B''"
  "upper_char CHR ''c'' = CHR ''C''" "upper_char CHR ''d'' = CHR ''D''"
  "upper_char CHR ''e'' = CHR ''E''" "upper_char CHR ''f'' = CHR ''F''"
  by code_simp+

lemma upper_char_hex:
  "c \<in> set ''0123456789abcdef'' \<Longrightarrow> upper_char c \<in> set ''ABCDEFGHIJKLMNOPQRSTUVWXYZ0123456789''"
  by (auto simp: upper_char_digits upper_char_letters)

lemma candidate_initial:
  assumes "md5_digest d"
  shows "length (upper (substr d 0 7)) = 6 \<and> uppercase_alphanumeric (upper (substr d 0 7))"
proof -
  from assms have len: "length d = 32"
    and hex: "\<forall>c \<in> set d. c \<in> set ''0123456789abcdef''"
    by (simp_all add: md5_digest_def list_all_iff)
  have "\<forall>c \<in> set (take 6 d). c \<in> set ''0123456789abcdef''"
    using hex by (meson in_set_takeD)
  then have "\<forall>c \<in> set (take 6 d). upper_char c \<in> set ''ABCDEFGHIJKLMNOPQRSTUVWXYZ0123456789''"
    using upper_char_hex by blast
  then show ?thesis
    using len by (simp add: substr_0_7 upper_def uppercase_alphanumeric_def list_all_iff)
qed

lemma generate_initial_result:
  "generate_unique_referral_code digests codes = Some (c, rest) \<Longrightarrow>
   c \<notin> set codes \<and> (\<exists>d \<in> set digests. c = upper (substr d 0 7))"
  by (induction digests) (auto simp: Let_def split: if_splits)

lemma generate_initial_returns:
  "\<exists>d \<in> set digests. upper (substr d 0 7) \<notin> set codes \<Longrightarrow>
   \<exists>c rest. generate_unique_referral_code digests codes = Some (c, rest)"
  by (induction digests) (auto simp: Let_def)

lemma shuffled_alphabet_props:
  "length (shuffled_alphabet random) = 36 \<and>
   set (shuffled_alphabet random) \<subseteq> set ''ABCDEFGHIJKLMNOPQRSTUVWXYZ0123456789''"
proof -
  let ?a = "''ABCDEFGHIJKLMNOPQRSTUVWXYZ0123456789''"
  have "length ?a = 36" by simp
  then have "\<forall>i < 36. ?a ! i \<in> set ?a" using nth_mem by metis
  then have "set (map (\<lambda>i. ?a ! i) [0..<36]) \<subseteq> set ?a" by auto
  then show ?thesis
    by (simp add: shuffled_alphabet_def image_image del: upt.simps set_simps)
qed

lemma candidate_consolidated:
  "length (take 8 (shuffled_alphabet random)) = 8 \<and>
   uppercase_alphanumeric (take 8 (shuffled_alphabet random))"
proof -
  note p = shuffled_alphabet_props [of random]
  have "set (take 8 (shuffled_alphabet random)) \<subseteq> set (shuffled_alphabet random)"
    by (rule set_take_subset)
  with p show ?thesis
    by (auto simp: uppercase_alphanumeric_def list_all_iff simp del: set_simps)
qed

lemma generate_consolidated_result:
  "generate_referral_code_consolidated draws codes = Some (c, rest) \<Longrightarrow>
   c \<notin> set codes \<and> (\<exists>random \<in> set draws. c = take 8 (shuffled_alphabet random))"
  by (induction draws) (auto simp: Let_def split: if_splits)

lemma generate_consolidated_returns:
  "\<exists>random \<in> set draws. take 8 (shuffled_alphabet random) \<notin> set codes \<Longrightarrow>
   \<exists>c rest. generate_referral_code_consolidated draws codes = Some (c, rest)"
  by (induction draws) (auto simp: Let_def)

lemma insert_users_initial_distinct:
  "insert_users_initial k digests codes = Some cs \<Longrightarrow>
   length cs = k \<and> distinct cs \<and> set cs \<inter> set codes = {}"
proof (induction k arbitrary: digests codes cs)
  case 0
  then show ?case by simp
next
  case (Suc k)
  from Suc.prems obtain c rest cs' where
    g: "generate_unique_referral_code digests codes = Some (c, rest)"
    and r: "insert_users_initial k rest (c # codes) = Some cs'" and cs: "cs = c # cs'"
    by (auto split: option.splits)
  from generate_initial_result [OF g] have "c \<notin> set codes" by simp
  with Suc.IH [OF r] cs show ?case by auto
qed

lemma insert_users_consolidated_distinct:
  "insert_users_consolidated k draws codes = Some cs \<Longrightarrow>
   length cs = k \<and> distinct cs \<and> set cs \<inter> set codes = {}"
proof (induction k arbitrary: draws codes cs)
  case 0
  then show ?case by simp
next
  case (Suc k)
  from Suc.prems obtain c rest cs' where
    g: "generate_referral_code_consolidated draws codes = Some (c, rest)"
    and r: "insert_users_consolidated k rest (c # codes) = Some cs'" and cs: "cs = c # cs'"
    by (auto split: option.splits)
  from generate_consolidated_result [OF g] have "c \<notin> set codes" by simp
  with Suc.IH [OF r] cs show ?case by auto
qed

lemma insert_users_initial_returns:
  "distinct (map (\<lambda>d. upper (substr d 0 7)) digests) \<Longrightarrow>
   set (map (\<lambda>d. upper (substr d 0 7)) digests) \<inter> set codes = {} \<Longrightarrow>
   insert_users_initial (length digests) digests codes
     = Some (map (\<lambda>d. upper (substr d 0 7)) digests)"
  by (induction digests arbitrary: codes) (auto simp: Let_def)

lemma insert_users_consolidated_returns:
  "distinct (map (\<lambda>random. take 8 (shuffled_alphabet random)) draws) \<Longrightarrow>
   set (map (\<lambda>random. take 8 (shuffled_alphabet random)) draws) \<inter> set codes = {} \<Longrightarrow>
   insert_users_consolidated (length draws) draws codes
     = Some (map (\<lambda>random. take 8 (shuffled_alphabet random)) draws)"
  by (induction draws arbitrary: codes) (auto simp: Let_def)

lemma sort_key_perm:
  assumes d: "distinct target" and n: "length target = length a" and da: "distinct a"
    and s: "set target = set a"
  shows "\<exists>random. map snd (sort_key fst (map (\<lambda>i. (random i :: nat, a ! i)) [0..<length a])) = target"
proof -
  let ?n = "length a"
  have "\<forall>i \<in> {0..<?n}. \<exists>j. j < ?n \<and> target ! j = a ! i"
  proof
    fix i assume "i \<in> {0..<?n}"
    then have "a ! i \<in> set target" using s by simp
    then show "\<exists>j. j < ?n \<and> target ! j = a ! i" using n by (metis in_set_conv_nth)
  qed
  then obtain f where f: "\<forall>i \<in> {0..<?n}. f i < ?n \<and> target ! f i = a ! i"
    by (rule bchoice [THEN exE]) blast
  have inj: "inj_on f {0..<?n}"
  proof (rule inj_onI)
    fix i i' assume i: "i \<in> {0..<?n}" and i': "i' \<in> {0..<?n}" and e: "f i = f i'"
    with f have "a ! i = a ! i'" by metis
    with da i i' show "i = i'" by (simp add: nth_eq_iff_index_eq)
  qed
  have "f ` {0..<?n} \<subseteq> {0..<?n}" using f by auto
  moreover have "card (f ` {0..<?n}) = card {0..<?n}" using inj by (rule card_image)
  ultimately have img: "f ` {0..<?n} = {0..<?n}" by (simp add: card_subset_eq)
  let ?L = "map (\<lambda>i. (f i, a ! i)) [0..<?n]"
  let ?ys = "map (\<lambda>j. (j, target ! j)) [0..<?n]"
  have "set ?L = (\<lambda>i. (f i, target ! f i)) ` {0..<?n}" using f by auto
  also have "\<dots> = (\<lambda>j. (j, target ! j)) ` (f ` {0..<?n})" by (simp add: image_image)
  also have "\<dots> = set ?ys" using img by simp
  finally have sL: "set ?L = set ?ys" .
  have fstL: "map fst ?L = map f [0..<?n]" by simp
  have dfst: "distinct (map fst ?L)" unfolding fstL using inj by (simp add: distinct_map)
  then have dL: "distinct ?L" and injL: "inj_on fst (set ?L)" by (simp_all only: distinct_map)
  have "sorted (map fst (sort_key fst ?L))" by (rule sorted_sort_key)
  moreover have "distinct (map fst (sort_key fst ?L))"
    using dL injL by (simp only: distinct_map distinct_sort set_sort)
  moreover have "set (map fst (sort_key fst ?L)) = set [0..<?n]" 
    using img fstL by (simp only: set_sort set_map set_upt image_image fst_conv)
  ultimately have "map fst (sort_key fst ?L) = [0..<?n]"
    using sorted_distinct_set_unique [of "map fst (sort_key fst ?L)" "[0..<?n]"] by simp
  then have "map fst (sort_key fst ?L) = map fst ?ys" by (simp add: comp_def)
  moreover have "inj_on fst (set (sort_key fst ?L) \<union> set ?ys)"
    using injL sL by (simp only: set_sort) simp
  ultimately have "sort_key fst ?L = ?ys" by (simp only: inj_on_map_eq_map)
  then have "map snd (sort_key fst ?L) = map (\<lambda>j. target ! j) [0..<?n]" by (simp add: comp_def)
  also have "\<dots> = target" using n map_nth [of target] by simp
  finally show ?thesis by blast
qed

lemma alphabet_distinct:
  "distinct ''ABCDEFGHIJKLMNOPQRSTUVWXYZ0123456789''"
  by simp

lemma shuffled_alphabet_length_eq:
  "shuffled_alphabet random =
     map snd (sort_key fst (map (\<lambda>i. (random i, ''ABCDEFGHIJKLMNOPQRSTUVWXYZ0123456789'' ! i))
       [0..<length ''ABCDEFGHIJKLMNOPQRSTUVWXYZ0123456789'']))"
proof -
  have l: "length ''ABCDEFGHIJKLMNOPQRSTUVWXYZ0123456789'' = 36" by simp
  show ?thesis unfolding l by (rule shuffled_alphabet_def)
qed

lemma shuffled_alphabet_distinct: "distinct (shuffled_alphabet random)"
proof -
  let ?a = "''ABCDEFGHIJKLMNOPQRSTUVWXYZ0123456789''"
  let ?L = "map (\<lambda>i. (random i, ?a ! i)) [0..<length ?a]"
  have "map snd ?L = map (\<lambda>i. ?a ! i) [0..<length ?a]" by (simp only: map_map comp_def snd_conv)
  also have "\<dots> = ?a" by (rule map_nth)
  finally have "distinct (map snd ?L)" using alphabet_distinct by (simp only:)
  then have "distinct ?L" and "inj_on snd (set ?L)" by (simp_all only: distinct_map)
  then have "distinct (map snd (sort_key fst ?L))"
    by (simp only: distinct_map distinct_sort set_sort)
  then show ?thesis by (simp only: shuffled_alphabet_length_eq)
qed

lemma candidate_consolidated_space:
  "code_space_consolidated (take 8 (shuffled_alphabet random))"
  using candidate_consolidated [of random] shuffled_alphabet_distinct [of random]
  by (simp add: code_space_consolidated_def uppercase_alphanumeric_def distinct_take)

lemma shuffle_take:
  assumes da: "distinct a" and dc: "distinct c" and sub: "set c \<subseteq> set a"
  shows "\<exists>random. take (length c)
           (map snd (sort_key fst (map (\<lambda>i. (random i :: nat, a ! i)) [0..<length a]))) = c"
proof -
  let ?t = "c @ filter (\<lambda>x. x \<notin> set c) a"
  have dt: "distinct ?t" using dc da by auto
  have st: "set ?t = set a" using sub by auto
  have "length ?t = card (set ?t)" using dt by (simp only: distinct_card)
  also have "\<dots> = length a" using st da by (simp only: distinct_card)
  finally have lt: "length ?t = length a" .
  from sort_key_perm [OF dt lt da st] obtain random where
    "map snd (sort_key fst (map (\<lambda>i. (random i :: nat, a ! i)) [0..<length a])) = ?t" ..
  then have "take (length c)
           (map snd (sort_key fst (map (\<lambda>i. (random i :: nat, a ! i)) [0..<length a]))) = c"
    by simp
  then show ?thesis by blast
qed

lemma code_space_consolidated_drawn:
  assumes "code_space_consolidated c"
  shows "\<exists>random. take 8 (shuffled_alphabet random) = c"
proof -
  from assms have len: "length c = 8" and dc: "distinct c"
    and sub: "set c \<subseteq> set ''ABCDEFGHIJKLMNOPQRSTUVWXYZ0123456789''"
    unfolding code_space_consolidated_def list_all_iff by blast+
  from shuffle_take [OF alphabet_distinct dc sub] len show ?thesis
    by (simp only: shuffled_alphabet_length_eq)
qed

lemma upper_char_hex_upper:
  "x \<in> set ''0123456789abcdef'' \<Longrightarrow> upper_char x \<in> set ''0123456789ABCDEF''"
  by (auto simp: upper_char_digits upper_char_letters)

lemma candidate_initial_space:
  assumes "md5_digest d"
  shows "code_space_initial (upper (substr d 0 7))"
proof -
  from assms have len: "length d = 32"
    and hex: "\<forall>x \<in> set d. x \<in> set ''0123456789abcdef''"
    by (simp_all add: md5_digest_def list_all_iff)
  have "\<forall>x \<in> set (take 6 d). x \<in> set ''0123456789abcdef''"
    using hex by (meson in_set_takeD)
  then have "\<forall>x \<in> set (take 6 d). upper_char x \<in> set ''0123456789ABCDEF''"
    using upper_char_hex_upper by blast
  then show ?thesis
    using len by (simp add: substr_0_7 upper_def code_space_initial_def list_all_iff)
qed

lemma code_space_initial_drawn:
  assumes "code_space_initial c"
  shows "\<exists>d. md5_digest d \<and> upper (substr d 0 7) = c"
proof -
  from assms have len: "length c = 6" and hex: "\<forall>x \<in> set c. x \<in> set ''0123456789ABCDEF''"
    by (simp_all add: code_space_initial_def list_all_iff)
  define lower where "lower = (\<lambda>x. if x = CHR ''A'' then CHR ''a'' else if x = CHR ''B'' then CHR ''b''
    else if x = CHR ''C'' then CHR ''c'' else if x = CHR ''D'' then CHR ''d''
    else if x = CHR ''E'' then CHR ''e'' else if x = CHR ''F'' then CHR ''f'' else x)"
  have lower:
    "\<forall>x \<in> set ''0123456789ABCDEF''. lower x \<in> set ''0123456789abcdef'' \<and> upper_char (lower x) = x"
    by (simp add: lower_def upper_char_digits upper_char_letters)
  let ?d = "map lower c @ replicate 26 CHR ''0''"
  have "list_all (\<lambda>y. y \<in> set ''0123456789abcdef'') (map lower c)"
    unfolding list_all_iff set_map using hex lower by blast
  moreover have "list_all (\<lambda>y. y \<in> set ''0123456789abcdef'') (replicate 26 CHR ''0'')"
    by (simp add: list_all_iff)
  ultimately have "md5_digest ?d"
    using len unfolding md5_digest_def by (simp only: list_all_append length_append length_map length_replicate) simp
  moreover have "map upper_char (map lower c) = c"
    unfolding map_map comp_def using hex lower by (intro map_idI) blast
  then have "upper (substr ?d 0 7) = c"
    using len by (simp add: substr_0_7 upper_def)
  ultimately show ?thesis by blast
qed

lemma generate_initial_skips:
  "list_all (\<lambda>p. upper (substr p 0 7) \<in> set codes) pre \<Longrightarrow>
   generate_unique_referral_code (pre @ digests) codes
     = generate_unique_referral_code digests codes"
  by (induction pre) (simp_all add: Let_def)

lemma generate_consolidated_skips:
  "list_all (\<lambda>p. take 8 (shuffled_alphabet p) \<in> set codes) pre \<Longrightarrow>
   generate_referral_code_consolidated (pre @ draws) codes
     = generate_referral_code_consolidated draws codes"
  by (induction pre) (simp_all add: Let_def)

lemma generate_initial_rest:
  "generate_unique_referral_code digests codes = Some (c, rest) \<Longrightarrow> set rest \<subseteq> set digests"
  by (induction digests) (auto simp: Let_def split: if_splits)

lemma generate_consolidated_rest:
  "generate_referral_code_consolidated draws codes = Some (c, rest) \<Longrightarrow> set rest \<subseteq> set draws"
  by (induction draws) (auto simp: Let_def split: if_splits)

lemma insert_users_initial_drawn:
  "insert_users_initial k digests codes = Some cs \<Longrightarrow>
   set cs \<subseteq> (\<lambda>d. upper (substr d 0 7)) ` set digests"
proof (induction k arbitrary: digests codes cs)
  case 0
  then show ?case by simp
next
  case (Suc k)
  from Suc.prems obtain c rest cs' where
    g: "generate_unique_referral_code digests codes = Some (c, rest)"
    and r: "insert_users_initial k rest (c # codes) = Some cs'" and cs: "cs = c # cs'"
    by (auto split: option.splits)
  from generate_initial_rest [OF g] Suc.IH [OF r]
  have "set cs' \<subseteq> (\<lambda>d. upper (substr d 0 7)) ` set digests" by blast
  with generate_initial_result [OF g] cs show ?case by auto
qed

lemma insert_users_consolidated_drawn:
  "insert_users_consolidated k draws codes = Some cs \<Longrightarrow>
   set cs \<subseteq> (\<lambda>random. take 8 (shuffled_alphabet random)) ` set draws"
proof (induction k arbitrary: draws codes cs)
  case 0
  then show ?case by simp
next
  case (Suc k)
  from Suc.prems obtain c rest cs' where
    g: "generate_referral_code_consolidated draws codes = Some (c, rest)"
    and r: "insert_users_consolidated k rest (c # codes) = Some cs'" and cs: "cs = c # cs'"
    by (auto split: option.splits)
  from generate_consolidated_rest [OF g] Suc.IH [OF r]
  have "set cs' \<subseteq> (\<lambda>random. take 8 (shuffled_alphabet random)) ` set draws" by blast
  with generate_consolidated_result [OF g] cs show ?case by auto
qed

lemma card_fresh:
  assumes "finite A" and "x \<notin> B"
  shows "card (insert x A - B) = Suc (card (A - insert x B))"
proof -
  have "insert x A - B = insert x (A - insert x B)" using assms by auto
  moreover have "x \<notin> A - insert x B" by simp
  moreover have "finite (A - insert x B)" using assms by simp
  ultimately show ?thesis by simp
qed

lemma insert_users_initial_card:
  "(\<exists>cs. insert_users_initial k digests codes = Some cs)
   \<longleftrightarrow> k \<le> card ((\<lambda>d. upper (substr d 0 7)) ` set digests - set codes)"
proof (induction digests arbitrary: k codes)
  case Nil
  then show ?case by (cases k) simp_all
next
  case (Cons d ds)
  show ?case
  proof (cases k)
    case 0
    then show ?thesis by simp
  next
    case (Suc k')
    show ?thesis
    proof (cases "upper (substr d 0 7) \<in> set codes")
      case True
      then have "insert_users_initial (Suc k') (d # ds) codes = insert_users_initial (Suc k') ds codes"
        by (simp add: Let_def)
      moreover from True have "(\<lambda>d. upper (substr d 0 7)) ` set (d # ds) - set codes
          = (\<lambda>d. upper (substr d 0 7)) ` set ds - set codes"
        by auto
      ultimately show ?thesis using Cons.IH [of "Suc k'" codes] Suc by simp
    next
      case False
      then have "insert_users_initial (Suc k') (d # ds) codes
          = map_option (\<lambda>codes. upper (substr d 0 7) # codes)
              (insert_users_initial k' ds (upper (substr d 0 7) # codes))"
        by (simp add: Let_def)
      moreover from False have "card ((\<lambda>d. upper (substr d 0 7)) ` set (d # ds) - set codes)
          = Suc (card ((\<lambda>d. upper (substr d 0 7)) ` set ds - set (upper (substr d 0 7) # codes)))"
        using card_fresh [of "(\<lambda>d. upper (substr d 0 7)) ` set ds" "upper (substr d 0 7)" "set codes"]
        by simp
      ultimately show ?thesis
        using Cons.IH [of k' "upper (substr d 0 7) # codes"] Suc by simp
    qed
  qed
qed

lemma insert_users_consolidated_card:
  "(\<exists>cs. insert_users_consolidated k draws codes = Some cs)
   \<longleftrightarrow> k \<le> card ((\<lambda>random. take 8 (shuffled_alphabet random)) ` set draws - set codes)"
proof (induction draws arbitrary: k codes)
  case Nil
  then show ?case by (cases k) simp_all
next
  case (Cons d ds)
  show ?case
  proof (cases k)
    case 0
    then show ?thesis by simp
  next
    case (Suc k')
    show ?thesis
    proof (cases "take 8 (shuffled_alphabet d) \<in> set codes")
      case True
      then have "insert_users_consolidated (Suc k') (d # ds) codes
          = insert_users_consolidated (Suc k') ds codes"
        by (simp add: Let_def)
      moreover from True have "(\<lambda>random. take 8 (shuffled_alphabet random)) ` set (d # ds) - set codes
          = (\<lambda>random. take 8 (shuffled_alphabet random)) ` set ds - set codes"
        by auto
      ultimately show ?thesis using Cons.IH [of "Suc k'" codes] Suc by simp
    next
      case False
      then have "insert_users_consolidated (Suc k') (d # ds) codes
          = map_option (\<lambda>codes. take 8 (shuffled_alphabet d) # codes)
              (insert_users_consolidated k' ds (take 8 (shuffled_alphabet d) # codes))"
        by (simp add: Let_def)
      moreover from False have
        "card ((\<lambda>random. take 8 (shuffled_alphabet random)) ` set (d # ds) - set codes)
          = Suc (card ((\<lambda>random. take 8 (shuffled_alphabet random)) ` set ds
                  - set (take 8 (shuffled_alphabet d) # codes)))"
        using card_fresh [of "(\<lambda>random. take 8 (shuffled_alphabet random)) ` set ds"
            "take 8 (shuffled_alphabet d)" "set codes"]
        by simp
      ultimately show ?thesis
        using Cons.IH [of k' "take 8 (shuffled_alphabet d) # codes"] Suc by simp
    qed
  qed
qed

lemma insert_users_initial_any:
  assumes "distinct cs" and "list_all code_space_initial cs" and "set cs \<inter> set codes = {}"
  shows "\<exists>digests. list_all md5_digest digests
           \<and> insert_users_initial (length cs) digests codes = Some cs"
proof -
  from assms(2) have "\<forall>c \<in> set cs. \<exists>d. md5_digest d \<and> upper (substr d 0 7) = c"
    using code_space_initial_drawn by (simp add: list_all_iff)
  then obtain g where g: "\<forall>c \<in> set cs. md5_digest (g c) \<and> upper (substr (g c) 0 7) = c"
    by (rule bchoice [THEN exE]) blast
  then have m: "map (\<lambda>d. upper (substr d 0 7)) (map g cs) = cs"
    unfolding map_map comp_def by (intro map_idI) blast
  have d: "distinct (map (\<lambda>d. upper (substr d 0 7)) (map g cs))"
    using assms(1) by (simp only: m)
  have i: "set (map (\<lambda>d. upper (substr d 0 7)) (map g cs)) \<inter> set codes = {}"
    using assms(3) by (simp only: m)
  from insert_users_initial_returns [OF d i]
  have "insert_users_initial (length cs) (map g cs) codes = Some cs"
    by (simp only: m length_map)
  moreover from g have "list_all md5_digest (map g cs)" by (simp add: list_all_iff)
  ultimately show ?thesis by blast
qed

lemma insert_users_consolidated_any:
  assumes "distinct cs" and "list_all code_space_consolidated cs" and "set cs \<inter> set codes = {}"
  shows "\<exists>draws. insert_users_consolidated (length cs) draws codes = Some cs"
proof -
  from assms(2) have "\<forall>c \<in> set cs. \<exists>random. take 8 (shuffled_alphabet random) = c"
    using code_space_consolidated_drawn by (simp add: list_all_iff)
  then obtain g where g: "\<forall>c \<in> set cs. take 8 (shuffled_alphabet (g c)) = c"
    by (rule bchoice [THEN exE]) blast
  then have m: "map (\<lambda>random. take 8 (shuffled_alphabet random)) (map g cs) = cs"
    unfolding map_map comp_def by (intro map_idI) blast
  have d: "distinct (map (\<lambda>random. take 8 (shuffled_alphabet random)) (map g cs))"
    using assms(1) by (simp only: m)
  have i: "set (map (\<lambda>random. take 8 (shuffled_alphabet random)) (map g cs)) \<inter> set codes = {}"
    using assms(3) by (simp only: m)
  from insert_users_consolidated_returns [OF d i]
  have "insert_users_consolidated (length cs) (map g cs) codes = Some cs"
    by (simp only: m length_map)
  then show ?thesis by blast
qed

text \<open>
  C7 (a code not yet in use). What either generator returns is not in the column at
  the time of the check, and is a code of its code space. For every code of the code
  space that is not in the column there is a draw that gives it, and on every
  sequence of draws that holds this draw the generator returns, with a code that is
  not in the column. A candidate that is in the column is passed over and the next
  draw is taken: after any number of such draws the first candidate that is not in
  the column is returned; while every candidate drawn is in the column the
  generator has not returned. Users inserted one after the other get pairwise
  different codes, none of them in the column before, each the candidate of one of
  the draws; \<open>k\<close> users get their codes exactly when the draws hold \<open>k\<close> different
  candidates that are not in the column, whatever is drawn again in between; and any
  \<open>k\<close> different codes of the code space that are not in the column are the codes of
  \<open>k\<close> users under some draws.
\<close>

theorem referral_code_unused:
  "(generate_unique_referral_code digests codes = Some (c, rest) \<longrightarrow> c \<notin> set codes)
 \<and> (list_all md5_digest digests \<and> generate_unique_referral_code digests codes = Some (c, rest) \<longrightarrow>
      code_space_initial c)
 \<and> (code_space_initial u \<and> u \<notin> set codes \<longrightarrow>
      (\<exists>d. md5_digest d \<and> upper (substr d 0 7) = u
         \<and> (\<forall>pre ds. \<exists>c' rest'.
               generate_unique_referral_code (pre @ d # ds) codes = Some (c', rest')
               \<and> c' \<notin> set codes)))
 \<and> ((\<exists>d \<in> set digests. upper (substr d 0 7) \<notin> set codes) \<longrightarrow>
      (\<exists>c' rest'. generate_unique_referral_code digests codes = Some (c', rest') \<and> c' \<notin> set codes))
 \<and> (upper (substr d 0 7) \<in> set codes \<longrightarrow>
      generate_unique_referral_code (d # digests) codes
        = generate_unique_referral_code digests codes)
 \<and> (list_all (\<lambda>p. upper (substr p 0 7) \<in> set codes) pre \<and> upper (substr d 0 7) \<notin> set codes \<longrightarrow>
      generate_unique_referral_code (pre @ d # digests) codes
        = Some (upper (substr d 0 7), digests))
 \<and> (list_all (\<lambda>p. upper (substr p 0 7) \<in> set codes) pre \<longrightarrow>
      generate_unique_referral_code pre codes = None)
 \<and> (insert_users_initial k digests codes = Some cs \<longrightarrow>
      length cs = k \<and> distinct cs \<and> set cs \<inter> set codes = {}
      \<and> set cs \<subseteq> (\<lambda>d. upper (substr d 0 7)) ` set digests)
 \<and> ((\<exists>cs. insert_users_initial k digests codes = Some cs)
      \<longleftrightarrow> k \<le> card ((\<lambda>d. upper (substr d 0 7)) ` set digests - set codes))
 \<and> (distinct (map (\<lambda>d. upper (substr d 0 7)) digests)
      \<and> set (map (\<lambda>d. upper (substr d 0 7)) digests) \<inter> set codes = {} \<longrightarrow>
      insert_users_initial (length digests) digests codes
        = Some (map (\<lambda>d. upper (substr d 0 7)) digests))
 \<and> (distinct us \<and> list_all code_space_initial us \<and> set us \<inter> set codes = {} \<longrightarrow>
      (\<exists>ds. list_all md5_digest ds \<and> insert_users_initial (length us) ds codes = Some us))
 \<and> (generate_referral_code_consolidated draws codes = Some (c, rest2) \<longrightarrow>
      c \<notin> set codes \<and> code_space_consolidated c)
 \<and> (code_space_consolidated u \<and> u \<notin> set codes \<longrightarrow>
      (\<exists>random. take 8 (shuffled_alphabet random) = u
         \<and> (\<forall>pre ds. \<exists>c' rest'.
               generate_referral_code_consolidated (pre @ random # ds) codes = Some (c', rest')
               \<and> c' \<notin> set codes)))
 \<and> ((\<exists>random \<in> set draws. take 8 (shuffled_alphabet random) \<notin> set codes) \<longrightarrow>
      (\<exists>c' rest'. generate_referral_code_consolidated draws codes = Some (c', rest')
         \<and> c' \<notin> set codes))
 \<and> (take 8 (shuffled_alphabet random) \<in> set codes \<longrightarrow>
      generate_referral_code_consolidated (random # draws) codes
        = generate_referral_code_consolidated draws codes)
 \<and> (list_all (\<lambda>p. take 8 (shuffled_alphabet p) \<in> set codes) pre2
      \<and> take 8 (shuffled_alphabet random) \<notin> set codes \<longrightarrow>
      generate_referral_code_consolidated (pre2 @ random # draws) codes
        = Some (take 8 (shuffled_alphabet random), draws))
 \<and> (list_all (\<lambda>p. take 8 (shuffled_alphabet p) \<in> set codes) pre2 \<longrightarrow>
      generate_referral_code_consolidated pre2 codes = None)
 \<and> (insert_users_consolidated k draws codes = Some cs \<longrightarrow>
      length cs = k \<and> distinct cs \<and> set cs \<inter> set codes = {}
      \<and> set cs \<subseteq> (\<lambda>random. take 8 (shuffled_alphabet random)) ` set draws)
 \<and> ((\<exists>cs. insert_users_consolidated k draws codes = Some cs)
      \<longleftrightarrow> k \<le> card ((\<lambda>random. take 8 (shuffled_alphabet random)) ` set draws - set codes))
 \<and> (distinct (map (\<lambda>random. take 8 (shuffled_alphabet random)) draws)
      \<and> set (map (\<lambda>random. take 8 (shuffled_alphabet random)) draws) \<inter> set codes = {} \<longrightarrow>
      insert_users_consolidated (length draws) draws codes
        = Some (map (\<lambda>random. take 8 (shuffled_alphabet random)) draws))
 \<and> (distinct us \<and> list_all code_space_consolidated us \<and> set us \<inter> set codes = {} \<longrightarrow>
      (\<exists>ds. insert_users_consolidated (length us) ds codes = Some us))"
proof -
  have i1: "generate_unique_referral_code digests codes = Some (c, rest) \<longrightarrow> c \<notin> set codes"
    using generate_initial_result by blast
  have i2: "list_all md5_digest digests \<and> generate_unique_referral_code digests codes = Some (c, rest)
      \<longrightarrow> code_space_initial c"
  proof
    assume a: "list_all md5_digest digests \<and> generate_unique_referral_code digests codes = Some (c, rest)"
    then obtain d' where "d' \<in> set digests" and c: "c = upper (substr d' 0 7)"
      using generate_initial_result by blast
    with a have "md5_digest d'" by (simp add: list_all_iff)
    from candidate_initial_space [OF this] c show "code_space_initial c" by simp
  qed
  have i3: "code_space_initial u \<and> u \<notin> set codes \<longrightarrow>
      (\<exists>d. md5_digest d \<and> upper (substr d 0 7) = u
         \<and> (\<forall>pre ds. \<exists>c' rest'.
               generate_unique_referral_code (pre @ d # ds) codes = Some (c', rest')
               \<and> c' \<notin> set codes))"
  proof
    assume a: "code_space_initial u \<and> u \<notin> set codes"
    then obtain d where m: "md5_digest d" and u: "upper (substr d 0 7) = u"
      using code_space_initial_drawn by blast
    have "\<exists>c' rest'. generate_unique_referral_code (pre @ d # ds) codes = Some (c', rest')
               \<and> c' \<notin> set codes" for pre ds
    proof -
      from a u have "\<exists>x \<in> set (pre @ d # ds). upper (substr x 0 7) \<notin> set codes" by simp
      then obtain c' rest' where
        g: "generate_unique_referral_code (pre @ d # ds) codes = Some (c', rest')"
        using generate_initial_returns by blast
      with generate_initial_result [OF g] show ?thesis by blast
    qed
    with m u show "\<exists>d. md5_digest d \<and> upper (substr d 0 7) = u
         \<and> (\<forall>pre ds. \<exists>c' rest'.
               generate_unique_referral_code (pre @ d # ds) codes = Some (c', rest')
               \<and> c' \<notin> set codes)"
      by blast
  qed
  have i4: "(\<exists>d \<in> set digests. upper (substr d 0 7) \<notin> set codes) \<longrightarrow>
      (\<exists>c' rest'. generate_unique_referral_code digests codes = Some (c', rest') \<and> c' \<notin> set codes)"
  proof
    assume "\<exists>d \<in> set digests. upper (substr d 0 7) \<notin> set codes"
    then obtain c' rest' where g: "generate_unique_referral_code digests codes = Some (c', rest')"
      using generate_initial_returns by blast
    with generate_initial_result [OF g]
    show "\<exists>c' rest'. generate_unique_referral_code digests codes = Some (c', rest') \<and> c' \<notin> set codes"
      by blast
  qed
  have i5: "upper (substr d 0 7) \<in> set codes \<longrightarrow>
      generate_unique_referral_code (d # digests) codes
        = generate_unique_referral_code digests codes"
    by (simp add: Let_def)
  have i6: "list_all (\<lambda>p. upper (substr p 0 7) \<in> set codes) pre \<and> upper (substr d 0 7) \<notin> set codes \<longrightarrow>
      generate_unique_referral_code (pre @ d # digests) codes
        = Some (upper (substr d 0 7), digests)"
    using generate_initial_skips [of codes pre "d # digests"] by (simp add: Let_def)
  have i7: "list_all (\<lambda>p. upper (substr p 0 7) \<in> set codes) pre \<longrightarrow>
      generate_unique_referral_code pre codes = None"
    using generate_initial_skips [of codes pre "[]"] by simp
  have i8: "insert_users_initial k digests codes = Some cs \<longrightarrow>
      length cs = k \<and> distinct cs \<and> set cs \<inter> set codes = {}
      \<and> set cs \<subseteq> (\<lambda>d. upper (substr d 0 7)) ` set digests"
    using insert_users_initial_distinct [of k digests codes cs]
      insert_users_initial_drawn [of k digests codes cs] by blast
  note i9 = insert_users_initial_card [of k digests codes]
  have i10: "distinct (map (\<lambda>d. upper (substr d 0 7)) digests)
      \<and> set (map (\<lambda>d. upper (substr d 0 7)) digests) \<inter> set codes = {} \<longrightarrow>
      insert_users_initial (length digests) digests codes
        = Some (map (\<lambda>d. upper (substr d 0 7)) digests)"
    using insert_users_initial_returns by blast
  have i11: "distinct us \<and> list_all code_space_initial us \<and> set us \<inter> set codes = {} \<longrightarrow>
      (\<exists>ds. list_all md5_digest ds \<and> insert_users_initial (length us) ds codes = Some us)"
    using insert_users_initial_any [of us codes] by blast
  have c1: "generate_referral_code_consolidated draws codes = Some (c, rest2) \<longrightarrow>
      c \<notin> set codes \<and> code_space_consolidated c"
    using generate_consolidated_result [of draws codes c rest2] candidate_consolidated_space
    by blast
  have c3: "code_space_consolidated u \<and> u \<notin> set codes \<longrightarrow>
      (\<exists>random. take 8 (shuffled_alphabet random) = u
         \<and> (\<forall>pre ds. \<exists>c' rest'.
               generate_referral_code_consolidated (pre @ random # ds) codes = Some (c', rest')
               \<and> c' \<notin> set codes))"
  proof
    assume a: "code_space_consolidated u \<and> u \<notin> set codes"
    then obtain random where u: "take 8 (shuffled_alphabet random) = u"
      using code_space_consolidated_drawn by blast
    have "\<exists>c' rest'. generate_referral_code_consolidated (pre @ random # ds) codes = Some (c', rest')
               \<and> c' \<notin> set codes" for pre ds
    proof -
      from a u have "\<exists>x \<in> set (pre @ random # ds). take 8 (shuffled_alphabet x) \<notin> set codes"
        by simp
      then obtain c' rest' where
        g: "generate_referral_code_consolidated (pre @ random # ds) codes = Some (c', rest')"
        using generate_consolidated_returns by blast
      with generate_consolidated_result [OF g] show ?thesis by blast
    qed
    with u show "\<exists>random. take 8 (shuffled_alphabet random) = u
         \<and> (\<forall>pre ds. \<exists>c' rest'.
               generate_referral_code_consolidated (pre @ random # ds) codes = Some (c', rest')
               \<and> c' \<notin> set codes)"
      by blast
  qed
  have c4: "(\<exists>random \<in> set draws. take 8 (shuffled_alphabet random) \<notin> set codes) \<longrightarrow>
      (\<exists>c' rest'. generate_referral_code_consolidated draws codes = Some (c', rest')
         \<and> c' \<notin> set codes)"
  proof
    assume "\<exists>random \<in> set draws. take 8 (shuffled_alphabet random) \<notin> set codes"
    then obtain c' rest' where
      g: "generate_referral_code_consolidated draws codes = Some (c', rest')"
      using generate_consolidated_returns by blast
    with generate_consolidated_result [OF g]
    show "\<exists>c' rest'. generate_referral_code_consolidated draws codes = Some (c', rest')
         \<and> c' \<notin> set codes"
      by blast
  qed
  have c5: "take 8 (shuffled_alphabet random) \<in> set codes \<longrightarrow>
      generate_referral_code_consolidated (random # draws) codes
        = generate_referral_code_consolidated draws codes"
    by (simp add: Let_def)
  have c6: "list_all (\<lambda>p. take 8 (shuffled_alphabet p) \<in> set codes) pre2
      \<and> take 8 (shuffled_alphabet random) \<notin> set codes \<longrightarrow>
      generate_referral_code_consolidated (pre2 @ random # draws) codes
        = Some (take 8 (shuffled_alphabet random), draws)"
    using generate_consolidated_skips [of codes pre2 "random # draws"] by (simp add: Let_def)
  have c7: "list_all (\<lambda>p. take 8 (shuffled_alphabet p) \<in> set codes) pre2 \<longrightarrow>
      generate_referral_code_consolidated pre2 codes = None"
    using generate_consolidated_skips [of codes pre2 "[]"] by simp
  have c8: "insert_users_consolidated k draws codes = Some cs \<longrightarrow>
      length cs = k \<and> distinct cs \<and> set cs \<inter> set codes = {}
      \<and> set cs \<subseteq> (\<lambda>random. take 8 (shuffled_alphabet random)) ` set draws"
    using insert_users_consolidated_distinct [of k draws codes cs]
      insert_users_consolidated_drawn [of k draws codes cs] by blast
  note c9 = insert_users_consolidated_card [of k draws codes]
  have c10: "distinct (map (\<lambda>random. take 8 (shuffled_alphabet random)) draws)
      \<and> set (map (\<lambda>random. take 8 (shuffled_alphabet random)) draws) \<inter> set codes = {} \<longrightarrow>
      insert_users_consolidated (length draws) draws codes
        = Some (map (\<lambda>random. take 8 (shuffled_alphabet random)) draws)"
    using insert_users_consolidated_returns by blast
  have c11: "distinct us \<and> list_all code_space_consolidated us \<and> set us \<inter> set codes = {} \<longrightarrow>
      (\<exists>ds. insert_users_consolidated (length us) ds codes = Some us)"
    using insert_users_consolidated_any [of us codes] by blast
  from i1 i2 i3 i4 i5 i6 i7 i8 i9 i10 i11 c1 c3 c4 c5 c6 c7 c8 c9 c10 c11
  show ?thesis by (intro conjI)
qed

theorem referral_code_unused_witness:
  "generate_unique_referral_code
     [''d41d8cd98f00b204e9800998ecf8427e'', ''0cc175b9c0f1b6a831c399e269772661''] [''D41D8C'']
     = Some (''0CC175'', [])
   \<and> ''0CC175'' \<notin> set [''D41D8C''] \<and> code_space_initial ''0CC175''
   \<and> (\<exists>d. md5_digest d \<and> upper (substr d 0 7) = ''0CC175''
        \<and> (\<forall>pre ds. \<exists>c' rest'.
              generate_unique_referral_code (pre @ d # ds) [''D41D8C''] = Some (c', rest')
              \<and> c' \<notin> set [''D41D8C'']))
   \<and> generate_unique_referral_code [''d41d8cd98f00b204e9800998ecf8427e''] [''D41D8C''] = None
   \<and> insert_users_initial 2
       [''d41d8cd98f00b204e9800998ecf8427e'', ''d41d8cd98f00b204e9800998ecf8427e'',
        ''0cc175b9c0f1b6a831c399e269772661''] []
     = Some [''D41D8C'', ''0CC175'']
   \<and> distinct [''D41D8C'', ''0CC175'']
   \<and> 2 \<le> card ((\<lambda>d. upper (substr d 0 7)) `
         set [''d41d8cd98f00b204e9800998ecf8427e'', ''d41d8cd98f00b204e9800998ecf8427e'',
              ''0cc175b9c0f1b6a831c399e269772661''] - set [])
   \<and> insert_users_initial 3
       [''d41d8cd98f00b204e9800998ecf8427e'', ''d41d8cd98f00b204e9800998ecf8427e'',
        ''0cc175b9c0f1b6a831c399e269772661''] []
     = None
   \<and> (\<exists>ds. list_all md5_digest ds \<and> insert_users_initial 2 ds [''D41D8C''] = Some [''0CC175'', ''FFFFFF''])
   \<and> map_option fst (generate_referral_code_consolidated [\<lambda>i. i, \<lambda>i. 36 - i] [''ABCDEFGH''])
     = Some ''98765432''
   \<and> ''98765432'' \<notin> set [''ABCDEFGH''] \<and> code_space_consolidated ''98765432''
   \<and> map_option fst (generate_referral_code_consolidated [\<lambda>i. i, \<lambda>i. 36 - i] [])
     = Some ''ABCDEFGH''
   \<and> (\<exists>random. take 8 (shuffled_alphabet random) = ''XPERMUTA''
        \<and> (\<forall>pre ds. \<exists>c' rest'.
              generate_referral_code_consolidated (pre @ random # ds) [''ABCDEFGH''] = Some (c', rest')
              \<and> c' \<notin> set [''ABCDEFGH'']))
   \<and> insert_users_consolidated 2 [\<lambda>i. i, \<lambda>i. i, \<lambda>i. 36 - i] []
     = Some [''ABCDEFGH'', ''98765432'']
   \<and> insert_users_consolidated 3 [\<lambda>i. i, \<lambda>i. i, \<lambda>i. 36 - i] [] = None"
proof -
  let ?d1 = "''d41d8cd98f00b204e9800998ecf8427e''" and ?d2 = "''0cc175b9c0f1b6a831c399e269772661''"
  have m: "list_all md5_digest [?d1, ?d2]" by code_simp
  have g1: "generate_unique_referral_code [?d1, ?d2] [''D41D8C''] = Some (''0CC175'', [])"
    by code_simp
  note ta = referral_code_unused [where digests = "[?d1, ?d2]" and codes = "[''D41D8C'']"
      and c = "''0CC175''" and rest = "[]" and u = "''0CC175''" and pre = "[?d1]"]
  from ta [THEN conjunct1] g1 have n1: "''0CC175'' \<notin> set [''D41D8C'']" by (rule mp)
  from m g1 have "list_all md5_digest [?d1, ?d2]
      \<and> generate_unique_referral_code [?d1, ?d2] [''D41D8C''] = Some (''0CC175'', [])" ..
  with ta [THEN conjunct2, THEN conjunct1] have s1: "code_space_initial ''0CC175''" by (rule mp)
  from s1 n1 have "code_space_initial ''0CC175'' \<and> ''0CC175'' \<notin> set [''D41D8C'']" ..
  with ta [THEN conjunct2, THEN conjunct2, THEN conjunct1]
  have e1: "\<exists>d. md5_digest d \<and> upper (substr d 0 7) = ''0CC175''
        \<and> (\<forall>pre ds. \<exists>c' rest'.
              generate_unique_referral_code (pre @ d # ds) [''D41D8C''] = Some (c', rest')
              \<and> c' \<notin> set [''D41D8C''])"
    by (rule mp)
  have "list_all (\<lambda>p. upper (substr p 0 7) \<in> set [''D41D8C'']) [?d1]" by code_simp
  with ta [THEN conjunct2, THEN conjunct2, THEN conjunct2, THEN conjunct2, THEN conjunct2,
      THEN conjunct2, THEN conjunct1]
  have g0: "generate_unique_referral_code [?d1] [''D41D8C''] = None" by (rule mp)
  have g2: "insert_users_initial 2 [?d1, ?d1, ?d2] [] = Some [''D41D8C'', ''0CC175'']"
    by code_simp
  note tb = referral_code_unused [where k = 2 and digests = "[?d1, ?d1, ?d2]" and codes = "[]"
      and cs = "[''D41D8C'', ''0CC175'']"]
  from tb [THEN conjunct2, THEN conjunct2, THEN conjunct2, THEN conjunct2, THEN conjunct2,
      THEN conjunct2, THEN conjunct2, THEN conjunct1] g2 have "length [''D41D8C'', ''0CC175''] = 2 \<and> distinct [''D41D8C'', ''0CC175'']
      \<and> set [''D41D8C'', ''0CC175''] \<inter> set [] = {}
      \<and> set [''D41D8C'', ''0CC175''] \<subseteq> (\<lambda>d. upper (substr d 0 7)) ` set [?d1, ?d1, ?d2]"
    by (rule mp)
  then have n2: "distinct [''D41D8C'', ''0CC175'']" by (elim conjE)
  from g2 have "\<exists>cs. insert_users_initial 2 [?d1, ?d1, ?d2] [] = Some cs" by (rule exI)
  with tb [THEN conjunct2, THEN conjunct2, THEN conjunct2, THEN conjunct2, THEN conjunct2,
      THEN conjunct2, THEN conjunct2, THEN conjunct2, THEN conjunct1]
  have k2: "2 \<le> card ((\<lambda>d. upper (substr d 0 7)) ` set [?d1, ?d1, ?d2] - set [])"
    by (rule iffD1)
  have g2': "insert_users_initial 3 [?d1, ?d1, ?d2] [] = None" by code_simp
  note td = referral_code_unused [where us = "[''0CC175'', ''FFFFFF'']" and codes = "[''D41D8C'']"]
  have "distinct [''0CC175'', ''FFFFFF''] \<and> list_all code_space_initial [''0CC175'', ''FFFFFF'']
      \<and> set [''0CC175'', ''FFFFFF''] \<inter> set [''D41D8C''] = {}"
    by code_simp
  with td [THEN conjunct2, THEN conjunct2, THEN conjunct2, THEN conjunct2, THEN conjunct2,
      THEN conjunct2, THEN conjunct2, THEN conjunct2, THEN conjunct2, THEN conjunct2,
      THEN conjunct1]
  have "\<exists>ds. list_all md5_digest ds
      \<and> insert_users_initial (length [''0CC175'', ''FFFFFF'']) ds [''D41D8C'']
          = Some [''0CC175'', ''FFFFFF'']"
    by (rule mp)
  moreover have "length [''0CC175'', ''FFFFFF''] = 2" by simp
  ultimately have e2: "\<exists>ds. list_all md5_digest ds
      \<and> insert_users_initial 2 ds [''D41D8C''] = Some [''0CC175'', ''FFFFFF'']"
    by (simp only:)
  have g3: "map_option fst (generate_referral_code_consolidated [\<lambda>i. i, \<lambda>i. 36 - i] [''ABCDEFGH''])
     = Some ''98765432''"
    by code_simp
  then obtain rest where g3': "generate_referral_code_consolidated [\<lambda>i. i, \<lambda>i. 36 - i] [''ABCDEFGH'']
     = Some (''98765432'', rest)"
    by auto
  note tc = referral_code_unused [where draws = "[\<lambda>i. i, \<lambda>i. 36 - i]" and codes = "[''ABCDEFGH'']"
      and c = "''98765432''" and ?rest2.0 = rest and u = "''XPERMUTA''"]
  from tc [THEN conjunct2, THEN conjunct2, THEN conjunct2, THEN conjunct2, THEN conjunct2,
      THEN conjunct2, THEN conjunct2, THEN conjunct2, THEN conjunct2, THEN conjunct2,
      THEN conjunct2, THEN conjunct1] g3'
  have "''98765432'' \<notin> set [''ABCDEFGH''] \<and> code_space_consolidated ''98765432''" by (rule mp)
  then have n3: "''98765432'' \<notin> set [''ABCDEFGH'']" and s3: "code_space_consolidated ''98765432''"
    by blast+
  have g4: "map_option fst (generate_referral_code_consolidated [\<lambda>i. i, \<lambda>i. 36 - i] [])
     = Some ''ABCDEFGH''"
    by code_simp
  have "code_space_consolidated ''XPERMUTA'' \<and> ''XPERMUTA'' \<notin> set [''ABCDEFGH'']" by code_simp
  with tc [THEN conjunct2, THEN conjunct2, THEN conjunct2, THEN conjunct2, THEN conjunct2,
      THEN conjunct2, THEN conjunct2, THEN conjunct2, THEN conjunct2, THEN conjunct2,
      THEN conjunct2, THEN conjunct2, THEN conjunct1]
  have e3: "\<exists>random. take 8 (shuffled_alphabet random) = ''XPERMUTA''
        \<and> (\<forall>pre ds. \<exists>c' rest'.
              generate_referral_code_consolidated (pre @ random # ds) [''ABCDEFGH''] = Some (c', rest')
              \<and> c' \<notin> set [''ABCDEFGH''])"
    by (rule mp)
  have g5: "insert_users_consolidated 2 [\<lambda>i. i, \<lambda>i. i, \<lambda>i. 36 - i] []
     = Some [''ABCDEFGH'', ''98765432'']"
    by code_simp
  have g6: "insert_users_consolidated 3 [\<lambda>i. i, \<lambda>i. i, \<lambda>i. 36 - i] [] = None" by code_simp
  from g1 n1 s1 e1 g0 g2 n2 k2 g2' e2 g3 n3 s3 g4 e3 g5 g6 show ?thesis by (intro conjI)
qed

lemma final_shape:
  assumes "md5_digest d"
  shows "length (generate_referral_code_final d) = 9"
    and "take 3 (generate_referral_code_final d) = ''XP-''"
    and "code_space_initial (upper (drop 3 (generate_referral_code_final d)))"
    and "\<not> uppercase_alphanumeric (generate_referral_code_final d)"
proof -
  from assms have len: "length d = 32" by (simp add: md5_digest_def)
  show "length (generate_referral_code_final d) = 9"
    using len by (simp add: generate_referral_code_final_def substr_0_7)
  show "take 3 (generate_referral_code_final d) = ''XP-''"
    by (simp add: generate_referral_code_final_def)
  show "code_space_initial (upper (drop 3 (generate_referral_code_final d)))"
    using candidate_initial_space [OF assms] by (simp add: generate_referral_code_final_def)
  show "\<not> uppercase_alphanumeric (generate_referral_code_final d)"
    by (simp add: generate_referral_code_final_def uppercase_alphanumeric_def)
qed

text \<open>
  C9 (shape of a code), as amended. With digests of 32 hexadecimal digits,
  \<^verbatim>\<open>generate_unique_referral_code\<close> returns 6 upper-case alphanumeric characters (digits
  and \<^verbatim>\<open>A\<close> to \<^verbatim>\<open>F\<close>); the consolidated script's \<^verbatim>\<open>generate_referral_code\<close> returns 8
  upper-case alphanumeric characters; the final reset script's \<^verbatim>\<open>generate_referral_code\<close>
  gives 9 characters, the prefix \<^verbatim>\<open>XP-\<close> and 6 hexadecimal digits of the digest (upper-cased,
  a code of \<^verbatim>\<open>generate_unique_referral_code\<close>): with its hyphen it is not made of
  upper-case alphanumeric characters only.
\<close>

theorem referral_code_shape:
  "(list_all md5_digest digests \<and> generate_unique_referral_code digests codes = Some (c, rest) \<longrightarrow>
      length c = 6 \<and> uppercase_alphanumeric c)
 \<and> (generate_referral_code_consolidated draws codes = Some (c', rest') \<longrightarrow>
      length c' = 8 \<and> uppercase_alphanumeric c')
 \<and> (md5_digest d \<longrightarrow>
      length (generate_referral_code_final d) = 9
      \<and> take 3 (generate_referral_code_final d) = ''XP-''
      \<and> code_space_initial (upper (drop 3 (generate_referral_code_final d)))
      \<and> \<not> uppercase_alphanumeric (generate_referral_code_final d))"
proof (intro conjI impI)
  assume a: "list_all md5_digest digests \<and> generate_unique_referral_code digests codes = Some (c, rest)"
  then obtain d' where "d' \<in> set digests" and c: "c = upper (substr d' 0 7)"
    using generate_initial_result by blast
  with a have "md5_digest d'" by (simp add: list_all_iff)
  from candidate_initial [OF this] c
  show "length c = 6" and "uppercase_alphanumeric c" by simp_all
next
  assume "generate_referral_code_consolidated draws codes = Some (c', rest')"
  then obtain random where "c' = take 8 (shuffled_alphabet random)"
    using generate_consolidated_result by blast
  with candidate_consolidated [of random]
  show "length c' = 8" and "uppercase_alphanumeric c'" by simp_all
next
  assume "md5_digest d"
  from final_shape [OF this]
  show "length (generate_referral_code_final d) = 9"
    and "take 3 (generate_referral_code_final d) = ''XP-''"
    and "code_space_initial (upper (drop 3 (generate_referral_code_final d)))"
    and "\<not> uppercase_alphanumeric (generate_referral_code_final d)" .
qed

theorem referral_code_shape_witness:
  "generate_unique_referral_code [''d41d8cd98f00b204e9800998ecf8427e''] [] = Some (''D41D8C'', [])
   \<and> length ''D41D8C'' = 6 \<and> uppercase_alphanumeric ''D41D8C''
   \<and> map_option fst (generate_referral_code_consolidated [\<lambda>i. 36 - i] []) = Some ''98765432''
   \<and> length ''98765432'' = 8 \<and> uppercase_alphanumeric ''98765432''
   \<and> md5_digest ''d41d8cd98f00b204e9800998ecf8427e''
   \<and> length (generate_referral_code_final ''d41d8cd98f00b204e9800998ecf8427e'') = 9
   \<and> take 3 (generate_referral_code_final ''d41d8cd98f00b204e9800998ecf8427e'') = ''XP-''
   \<and> upper (drop 3 (generate_referral_code_final ''d41d8cd98f00b204e9800998ecf8427e'')) = ''D41D8C''"
proof -
  let ?d = "''d41d8cd98f00b204e9800998ecf8427e''"
  have m: "md5_digest ?d" by code_simp
  have g: "generate_unique_referral_code [?d] [] = Some (''D41D8C'', [])" by code_simp
  have g2: "map_option fst (generate_referral_code_consolidated [\<lambda>i. 36 - i] []) = Some ''98765432''"
    by code_simp
  then obtain rest where g2': "generate_referral_code_consolidated [\<lambda>i. 36 - i] []
     = Some (''98765432'', rest)"
    by auto
  have u: "upper (drop 3 (generate_referral_code_final ?d)) = ''D41D8C''" by code_simp
  note t = referral_code_shape [where digests = "[?d]" and codes = "[]" and c = "''D41D8C''"
      and rest = "[]" and d = ?d and draws = "[\<lambda>i. 36 - i]" and c' = "''98765432''"
      and rest' = rest]
  from m g have "list_all md5_digest [?d]
      \<and> generate_unique_referral_code [?d] [] = Some (''D41D8C'', [])"
    by simp
  with t [THEN conjunct1]
  have s1: "length ''D41D8C'' = 6 \<and> uppercase_alphanumeric ''D41D8C''" by (rule mp)
  from t [THEN conjunct2, THEN conjunct1] g2'
  have s2: "length ''98765432'' = 8 \<and> uppercase_alphanumeric ''98765432''" by (rule mp)
  from t [THEN conjunct2, THEN conjunct2] m
  have "length (generate_referral_code_final ?d) = 9
      \<and> take 3 (generate_referral_code_final ?d) = ''XP-''
      \<and> code_space_initial (upper (drop 3 (generate_referral_code_final ?d)))
      \<and> \<not> uppercase_alphanumeric (generate_referral_code_final ?d)"
    by (rule mp)
  then have s3: "length (generate_referral_code_final ?d) = 9
      \<and> take 3 (generate_referral_code_final ?d) = ''XP-''"
    by blast
  from g s1 g2 s2 m s3 u show ?thesis by blast
qed

text \<open>
  The claim as it stands (6 to 8 upper-case alphanumeric characters) fails on the
  final reset script's trigger.
\<close>

theorem final_code_shape_counterexample:
  "generate_referral_code_final ''d41d8cd98f00b204e9800998ecf8427e'' = ''XP-d41d8c''
   \<and> length ''XP-d41d8c'' = 9
   \<and> \<not> uppercase_alphanumeric ''XP-d41d8c''"
  by code_simp

subsection \<open>The completion timestamp\<close>

text \<open>
  The version 2.0 trigger stamps the row it settles: when the status is
  \<^verbatim>\<open>completed\<close> on an insert, or becomes \<^verbatim>\<open>completed\<close> by an update, the row that is
  stored carries \<^verbatim>\<open>completed_at = now()\<close>; in every other case the row is stored as the
  statement gave it.
\<close>

lemma before_sets_completed_at:
  assumes "handle_seller_on_transaction_complete_before TG_OP OLD NEW now users = Inr (users', NEW')"
  shows "NEW' = (if status NEW = Completed \<and> (TG_OP = TG_INSERT \<or> Some Completed \<noteq> map_option status OLD)
                 then NEW\<lparr>completed_at := Some now\<rparr> else NEW)"
  using assms
  by (auto simp: handle_seller_on_transaction_complete_before_def and_then_def
      split: if_splits sum.splits)

text \<open>
  C5 (completion timestamp). \<^verbatim>\<open>handle_debt_repayment\<close> settles without writing
  \<^verbatim>\<open>completed_at\<close>: a pending transaction of 100.00 to a seller with a debt of 40.00 is
  completed, the seller is credited, and \<^verbatim>\<open>completed_at\<close> is still NULL.
\<close>

theorem completed_at_left_null:
  "update_transactions_corrected
     \<lparr>public_users =
        [1 \<mapsto> \<lparr>balance_xs = 20000, balance_bonus = 0, debt_xs = 0, referred_by = None,
                referral_bonus_paid = False, updated_at = 0\<rparr>,
         2 \<mapsto> \<lparr>balance_xs = 1000, balance_bonus = 0, debt_xs = 4000, referred_by = None,
                referral_bonus_paid = False, updated_at = 0\<rparr>],
      public_transactions =
        [9 \<mapsto> \<lparr>buyer_id = 1, seller_id = 2, amount = 10000, status = Pending,
                completed_at = None\<rparr>],
      public_system_settings = Map.empty\<rparr>
     9 True (\<lambda>r. r\<lparr>status := Completed\<rparr>)
   = Inr \<lparr>public_users =
        [1 \<mapsto> \<lparr>balance_xs = 20000, balance_bonus = 0, debt_xs = 0, referred_by = None,
                referral_bonus_paid = False, updated_at = 0\<rparr>,
         2 \<mapsto> \<lparr>balance_xs = 7000, balance_bonus = 0, debt_xs = 0, referred_by = None,
                referral_bonus_paid = False, updated_at = 0\<rparr>],
      public_transactions =
        [9 \<mapsto> \<lparr>buyer_id = 1, seller_id = 2, amount = 10000, status = Completed,
                completed_at = None\<rparr>],
      public_system_settings = Map.empty\<rparr>"
  by (simp add: update_transactions_corrected_def parties_exist_def and_then_def
      handle_debt_repayment_def update_users_def users_row_fits_def numeric_fits_def)

subsection \<open>Buyer and seller the same user\<close>

text \<open>
  Under \<^verbatim>\<open>buyer_seller_check\<close> a row whose buyer is its seller is refused, on insert
  and on update, before any trigger runs.
\<close>

lemma self_dealing_refused:
  "buyer_id NEW = seller_id NEW \<Longrightarrow> insert_transactions_corrected db tid NEW = Inl check_violation"
  "public_transactions db tid = Some OLD \<Longrightarrow> buyer_id (set_cols OLD) = seller_id (set_cols OLD) \<Longrightarrow>
   update_transactions_corrected db tid of_status set_cols = Inl check_violation"
  by (simp_all add: insert_transactions_corrected_def update_transactions_corrected_def)

text \<open>
  C6 (self-dealing). The \<^verbatim>\<open>transactions\<close> table of the consolidated reset script has no
  such constraint: user 1 inserts a transaction of 100.00 with himself as buyer and
  seller, completes it, and is credited 100.00.
\<close>

theorem self_dealing_accepted:
  "insert_transactions_reset
     \<lparr>public_users =
        [1 \<mapsto> \<lparr>balance_xs = 0, balance_bonus = 0, debt_xs = 0, referred_by = None,
                referral_bonus_paid = False, updated_at = 0\<rparr>],
      public_transactions = Map.empty,
      public_system_settings = Map.empty\<rparr>
     9 \<lparr>buyer_id = 1, seller_id = 1, amount = 10000, status = Pending, completed_at = None\<rparr>
   = Inr \<lparr>public_users =
        [1 \<mapsto> \<lparr>balance_xs = 0, balance_bonus = 0, debt_xs = 0, referred_by = None,
                referral_bonus_paid = False, updated_at = 0\<rparr>],
      public_transactions =
        [9 \<mapsto> \<lparr>buyer_id = 1, seller_id = 1, amount = 10000, status = Pending,
                completed_at = None\<rparr>],
      public_system_settings = Map.empty\<rparr>
   \<and> update_transactions_reset 5
     \<lparr>public_users =
        [1 \<mapsto> \<lparr>balance_xs = 0, balance_bonus = 0, debt_xs = 0, referred_by = None,
                referral_bonus_paid = False, updated_at = 0\<rparr>],
      public_transactions =
        [9 \<mapsto> \<lparr>buyer_id = 1, seller_id = 1, amount = 10000, status = Pending,
                completed_at = None\<rparr>],
      public_system_settings = Map.empty\<rparr>
     9 (\<lambda>r. r\<lparr>status := Completed\<rparr>)
   = Inr \<lparr>public_users =
        [1 \<mapsto> \<lparr>balance_xs = 10000, balance_bonus = 0, debt_xs = 0, referred_by = None,
                referral_bonus_paid = False, updated_at = 5\<rparr>],
      public_transactions =
        [9 \<mapsto> \<lparr>buyer_id = 1, seller_id = 1, amount = 10000, status = Completed,
                completed_at = None\<rparr>],
      public_system_settings = Map.empty\<rparr>"
  by (simp add: insert_transactions_reset_def update_transactions_reset_def parties_exist_def
      and_then_def handle_seller_on_transaction_complete_reset_def update_users_def
      users_row_fits_def numeric_fits_def)

end
